theory Spec2Isabelle
  imports Complex_Main "HOL-Library.Multiset"
begin

section \<open>The store behind \<^verbatim>\<open>necrodb.py\<close>\<close>

text \<open>
  \<^verbatim>\<open>necrobot/botbase/necrodb.py\<close> talks to a MySQL database through one shared
  connection. A table is modelled as the list of its rows, in insertion order; a
  \<^verbatim>\<open>SELECT\<close> filters the list, an \<^verbatim>\<open>UPDATE\<close> maps over it, an \<^verbatim>\<open>INSERT\<close> appends
  to it after the check of the primary key. The schema is not part of the sources: the
  columns are those the statements name, the keys are those section 6 of the
  specification gives, and a column that an \<^verbatim>\<open>INSERT\<close> does not name is \<^verbatim>\<open>NULL\<close>
  (\<open>None\<close>) in the new row.
\<close>

record user_row =
  discord_id :: int
  name :: "string option"
  twitch_name :: "string option"
  rtmp_name :: "string option"
  timezone :: "string option"
  user_info :: "string option"
  daily_alert :: "bool option"
  race_alert :: "bool option"

record race_row =
  race_id :: int
  timestamp :: string
  character_name :: string
  descriptor :: string
  flags :: string
  seed :: int
  seeded :: bool
  amplified :: bool
  condor :: bool
  private_col :: bool

record racer_row =
  rd_race_id :: int
  rd_discord_id :: int
  rd_time :: int
  rd_rank :: int
  rd_igt :: int
  rd_comment :: string
  rd_level :: int

record daily_race_row =
  dr_discord_id :: int
  dr_daily_id :: int
  dr_type :: int
  dr_level :: int
  dr_time :: int

text \<open>
  The three columns of \<^verbatim>\<open>ladder_data\<close> hold numbers; \<^verbatim>\<open>set_rating\<close> sends both
  Python integers and Python floats to them, so a cell is a real number here (a float is
  idealised as the real it stands for; only its integer part and equality with an
  integer are ever used).
\<close>

record ladder_row =
  ld_discord_id :: real
  trueskill_mu :: real
  trueskill_sigma :: real

record tables =
  user_data :: "user_row list"
  race_data :: "race_row list"
  racer_data :: "racer_row list"
  daily_races :: "daily_race_row list"
  ladder_data :: "ladder_row list"

text \<open>
  The exceptions the modelled functions can raise: a duplicate primary key
  (\<^verbatim>\<open>mysql.connector.errors.IntegrityError\<close>), a statement the server cannot parse
  (\<^verbatim>\<open>ProgrammingError\<close>), the subscript of \<^verbatim>\<open>None\<close> (\<^verbatim>\<open>TypeError\<close>), and a cursor
  closed before its result was read (\<^verbatim>\<open>mysql.connector.errors.InternalError\<close>).
\<close>

datatype error = IntegrityError | ProgrammingError | TypeError | InternalError

section \<open>\<^verbatim>\<open>DBConnect\<close>: the scope of a cursor\<close>

text \<open>
  The connection keeps what has been committed and what the open transaction has written
  so far. Every statement of the connection reads and writes \<open>working\<close>;
  \<^verbatim>\<open>db_connection.commit()\<close> makes it the committed state.

  \<^verbatim>\<open>
  def __exit__(self, exc_type, exc_val, exc_tb):
      if self.commit:
          DBConnect.db_connection.commit()
      self.cursor.close()
  \<close>
  \<^verbatim>\<open>__exit__\<close> does not look at \<^verbatim>\<open>exc_type\<close> and returns \<^verbatim>\<open>None\<close>: it commits in the
  same way when the body raised, and the exception goes on to the caller. The body of a
  \<^verbatim>\<open>with\<close> block is a function from the tables to a result (or the exception) and the
  tables as they are when the block is left. \<^verbatim>\<open>__enter__\<close> is taken to find a live
  connection.
\<close>

record conn =
  committed :: tables
  working :: tables

definition DBConnect_exit :: "bool \<Rightarrow> conn \<Rightarrow> conn" where
  "DBConnect_exit commit c = (if commit then c\<lparr>committed := working c\<rparr> else c)"

definition with_DBConnect ::
  "bool \<Rightarrow> (tables \<Rightarrow> (error + 'a) \<times> tables) \<Rightarrow> conn \<Rightarrow> (error + 'a) \<times> conn" where
  "with_DBConnect commit body c =
     (case body (working c) of
        (r, t) \<Rightarrow> (r, DBConnect_exit commit (c\<lparr>working := t\<rparr>)))"

subsection \<open>The cursor and its unread result\<close>

text \<open>
  \<^verbatim>\<open>mysql.connector.connect\<close> is called without \<^verbatim>\<open>buffered=True\<close> and
  \<^verbatim>\<open>db_connection.cursor()\<close> without arguments: the cursor is unbuffered, and the rows of
  a \<^verbatim>\<open>SELECT\<close> stay with the server until they are fetched. For such a cursor
  \<^item> \<^verbatim>\<open>rowcount\<close> is -1 straight after \<^verbatim>\<open>execute\<close> and counts the rows as they are
    fetched;
  \<^item> \<^verbatim>\<open>fetchone\<close> hands out the next row and reads one row ahead, so the result is read
    to its end once its last row has been handed out, or at the first \<^verbatim>\<open>fetchone\<close> when
    it has no row;
  \<^item> \<^verbatim>\<open>close\<close> raises \<^verbatim>\<open>InternalError\<close> (unread result found) when the result has not
    been read to its end.

  \<^verbatim>\<open>__exit__\<close> calls \<^verbatim>\<open>self.cursor.close()\<close> after the commit; an exception raised there
  takes the place of the value the body returned. \<open>with_DBConnect\<close> above is the scope
  of a body that leaves nothing unread: one that executes only \<^verbatim>\<open>INSERT\<close> and
  \<^verbatim>\<open>UPDATE\<close>, or fetches the rows it selected (\<^verbatim>\<open>fetchall\<close>, \<^verbatim>\<open>fetchone\<close> where the
  key or \<^verbatim>\<open>LIMIT 1\<close> allows one row at most). \<open>with_DBConnect_cursor\<close> is the scope of
  a body that hands back its cursor as well.
\<close>

record 'r cursor =
  unfetched :: "'r list"
  rowcount :: int
  unread_result :: bool

definition execute_select :: "'r list \<Rightarrow> 'r cursor" where
  "execute_select rows = \<lparr>unfetched = rows, rowcount = - 1, unread_result = True\<rparr>"

definition fetchone :: "'r cursor \<Rightarrow> 'r option \<times> 'r cursor" where
  "fetchone cur =
     (if \<not> unread_result cur then (None, cur)
      else case unfetched cur of
             [] \<Rightarrow> (None, cur\<lparr>unread_result := False\<rparr>)
           | row # rest \<Rightarrow>
               (Some row,
                cur\<lparr>unfetched := rest,
                    rowcount := (if rowcount cur = - 1 then 1 else rowcount cur + 1),
                    unread_result := (rest \<noteq> [])\<rparr>))"

definition cursor_close :: "'r cursor \<Rightarrow> error + unit" where
  "cursor_close cur = (if unread_result cur then Inl InternalError else Inr ())"

definition with_DBConnect_cursor ::
  "bool \<Rightarrow> (tables \<Rightarrow> (error + 'a) \<times> tables \<times> 'r cursor) \<Rightarrow> conn \<Rightarrow> (error + 'a) \<times> conn" where
  "with_DBConnect_cursor commit body c =
     (case body (working c) of
        (r, t, cur) \<Rightarrow>
          (case cursor_close cur of Inl e \<Rightarrow> Inl e | Inr u \<Rightarrow> r,
           DBConnect_exit commit (c\<lparr>working := t\<rparr>)))"

section \<open>\<^verbatim>\<open>record_race\<close>\<close>

text \<open>
  The attributes of a racer and of a race that \<^verbatim>\<open>record_race\<close> reads.
  \<^verbatim>\<open>start_datetime\<close> is kept as the string \<^verbatim>\<open>strftime\<close> makes of it.
\<close>

record racer =
  racer_id :: int
  racer_name :: string
  time :: int
  is_finished :: bool
  igt :: int
  comment :: string
  level :: int

record race_info =
  character_str :: string
  ri_descriptor :: string
  ri_flags :: string
  ri_seed :: int
  ri_seeded :: bool
  ri_amplified :: bool
  condor_race :: bool
  private_race :: bool

record race =
  start_datetime :: string
  race_info :: race_info
  racers :: "racer list"

text \<open>
  \<^verbatim>\<open>
  cursor.execute("SELECT race_id FROM race_data ORDER BY race_id DESC LIMIT 1")
  new_raceid = 0
  for row in cursor:
      new_raceid = row[0] + 1
      break
  \<close>
\<close>

definition new_raceid :: "tables \<Rightarrow> int" where
  "new_raceid t =
     (case rev (sort (map race_id (race_data t))) of
        [] \<Rightarrow> 0
      | x # _ \<Rightarrow> x + 1)"

definition race_params :: "int \<Rightarrow> race \<Rightarrow> race_row" where
  "race_params nid rc =
     \<lparr>race_id = nid,
      timestamp = start_datetime rc,
      character_name = character_str (race_info rc),
      descriptor = ri_descriptor (race_info rc),
      flags = ri_flags (race_info rc),
      seed = ri_seed (race_info rc),
      seeded = ri_seeded (race_info rc),
      amplified = ri_amplified (race_info rc),
      condor = condor_race (race_info rc),
      private_col = private_race (race_info rc)\<rparr>"

text \<open>\<^verbatim>\<open>INSERT INTO race_data (...) VALUES (...)\<close>, with the primary key \<^verbatim>\<open>race_id\<close>.\<close>

definition insert_race_data :: "race_row \<Rightarrow> tables \<Rightarrow> error + tables" where
  "insert_race_data row t =
     (if race_id row \<in> set (map race_id (race_data t)) then Inl IntegrityError
      else Inr (t\<lparr>race_data := race_data t @ [row]\<rparr>))"

text \<open>
  \<^verbatim>\<open>INSERT INTO racer_data (...) VALUES (...)\<close>, with the composite key
  \<^verbatim>\<open>(race_id, discord_id)\<close>.
\<close>

definition insert_racer_data :: "racer_row \<Rightarrow> tables \<Rightarrow> error + tables" where
  "insert_racer_data row t =
     (if (rd_race_id row, rd_discord_id row)
           \<in> set (map (\<lambda>r. (rd_race_id r, rd_discord_id r)) (racer_data t))
      then Inl IntegrityError
      else Inr (t\<lparr>racer_data := racer_data t @ [row]\<rparr>))"

text \<open>
  \<^verbatim>\<open>INSERT INTO user_data (discord_id, name) VALUES (%s,%s)
  ON DUPLICATE KEY UPDATE name=VALUES(name)\<close>: the statement of \<^verbatim>\<open>register_user\<close>
  and, with the no-op \<^verbatim>\<open>discord_id=VALUES(discord_id)\<close> added, of \<^verbatim>\<open>record_race\<close>.
\<close>

definition new_user_row :: "int \<Rightarrow> string \<Rightarrow> user_row" where
  "new_user_row did nm =
     \<lparr>discord_id = did, name = Some nm, twitch_name = None, rtmp_name = None,
      timezone = None, user_info = None, daily_alert = None, race_alert = None\<rparr>"

definition upsert_user_name :: "int \<Rightarrow> string \<Rightarrow> tables \<Rightarrow> tables" where
  "upsert_user_name did nm t =
     (if did \<in> set (map discord_id (user_data t))
      then t\<lparr>user_data :=
             map (\<lambda>r. if discord_id r = did then r\<lparr>name := Some nm\<rparr> else r) (user_data t)\<rparr>
      else t\<lparr>user_data := user_data t @ [new_user_row did nm]\<rparr>)"

text \<open>
  \<^verbatim>\<open>
  racer_list = []
  max_time = 0
  for racer in race.racers:
      racer_list.append(racer)
      if racer.is_finished:
          max_time = max(racer.time, max_time)
  max_time += 1
  racer_list.sort(key=lambda r: r.time if r.is_finished else max_time)
  \<close>
  \<^verbatim>\<open>list.sort\<close> is stable, as \<open>sort_key\<close> is.
\<close>

definition max_time :: "racer list \<Rightarrow> int" where
  "max_time rs = foldl (\<lambda>m r. if is_finished r then max (time r) m else m) 0 rs + 1"

definition racer_list :: "racer list \<Rightarrow> racer list" where
  "racer_list rs = sort_key (\<lambda>r. if is_finished r then time r else max_time rs) rs"

text \<open>
  \<^verbatim>\<open>
  rank = 1
  for racer in racer_list:
      racer_params = (new_raceid, racer.id, racer.time, rank, racer.igt, racer.comment, racer.level)
      cursor.execute("INSERT INTO racer_data ...", racer_params)
      if racer.is_finished:
          rank += 1
      user_params = (racer.id, racer.name)
      cursor.execute('INSERT INTO user_data ... ON DUPLICATE KEY UPDATE ...', user_params)
  \<close>
  A statement that raises ends the loop; the tables are then as the statements before it
  left them.
\<close>

definition racer_params :: "int \<Rightarrow> int \<Rightarrow> racer \<Rightarrow> racer_row" where
  "racer_params nid rank r =
     \<lparr>rd_race_id = nid, rd_discord_id = racer_id r, rd_time = time r, rd_rank = rank,
      rd_igt = igt r, rd_comment = comment r, rd_level = level r\<rparr>"

fun record_racers :: "int \<Rightarrow> int \<Rightarrow> racer list \<Rightarrow> tables \<Rightarrow> (error + unit) \<times> tables" where
  "record_racers nid rank [] t = (Inr (), t)"
| "record_racers nid rank (r # rs) t =
     (case insert_racer_data (racer_params nid rank r) t of
        Inl e \<Rightarrow> (Inl e, t)
      | Inr t1 \<Rightarrow>
          record_racers nid (if is_finished r then rank + 1 else rank) rs
            (upsert_user_name (racer_id r) (racer_name r) t1))"

definition record_race_body :: "race \<Rightarrow> tables \<Rightarrow> (error + unit) \<times> tables" where
  "record_race_body rc t =
     (let nid = new_raceid t in
      case insert_race_data (race_params nid rc) t of
        Inl e \<Rightarrow> (Inl e, t)
      | Inr t1 \<Rightarrow> record_racers nid 1 (racer_list (racers rc)) t1)"

definition record_race :: "race \<Rightarrow> conn \<Rightarrow> (error + unit) \<times> conn" where
  "record_race rc c = with_DBConnect True (record_race_body rc) c"

subsection \<open>What \<^verbatim>\<open>record_race\<close> is expected to store\<close>

text \<open>
  The rows that the loop of \<^verbatim>\<open>record_race\<close> sends to \<^verbatim>\<open>racer_data\<close>, when no
  statement raises: the loop without the database.
\<close>

fun racer_rows :: "int \<Rightarrow> int \<Rightarrow> racer list \<Rightarrow> racer_row list" where
  "racer_rows nid k [] = []"
| "racer_rows nid k (r # rs) =
     racer_params nid k r # racer_rows nid (if is_finished r then k + 1 else k) rs"

text \<open>
  The rank of a racer in the words of the specification: a finisher is ranked by the
  number of finishers with a smaller time, and a racer who did not finish gets the value
  of the counter after every finisher has been counted.
\<close>

definition rank_by_time :: "racer list \<Rightarrow> racer \<Rightarrow> int" where
  "rank_by_time rs r =
     (if is_finished r then 1 + int (length [f \<leftarrow> rs. is_finished f \<and> time f < time r])
      else 1 + int (length (filter is_finished rs)))"

text \<open>
  The race numbers that a sequence of \<^verbatim>\<open>record_race\<close> calls computes, each call
  running on the connection as the call before it left it (also when that call raised).
\<close>

fun assigned_race_ids :: "race list \<Rightarrow> conn \<Rightarrow> int list" where
  "assigned_race_ids [] c = []"
| "assigned_race_ids (rc # rcs) c =
     new_raceid (working c) # assigned_race_ids rcs (snd (record_race rc c))"

text \<open>The connection as such a sequence of calls leaves it.\<close>

fun record_races :: "race list \<Rightarrow> conn \<Rightarrow> conn" where
  "record_races [] c = c"
| "record_races (rc # rcs) c = record_races rcs (snd (record_race rc c))"

text \<open>
  The next race number in the words of the specification:
  \<^verbatim>\<open>1 + max(existing race_id, or -1 if table empty)\<close>.
\<close>

definition next_race_id :: "tables \<Rightarrow> int" where
  "next_race_id t = 1 + (if race_data t = [] then - 1 else Max (set (map race_id (race_data t))))"

text \<open>
  How far the loop of \<^verbatim>\<open>record_race\<close> gets: the number of racers of the sorted list whose
  result row is written before a row meets a key \<^verbatim>\<open>(race_id, discord_id)\<close> that is already
  in \<^verbatim>\<open>racer_data\<close> (the length of the list when none does); \<open>keys\<close> are the keys
  present. And the identities of a list of racers, upserted in order.
\<close>

fun recorded_before_clash :: "(int \<times> int) list \<Rightarrow> int \<Rightarrow> racer list \<Rightarrow> nat" where
  "recorded_before_clash keys nid [] = 0"
| "recorded_before_clash keys nid (r # rs) =
     (if (nid, racer_id r) \<in> set keys then 0
      else Suc (recorded_before_clash (keys @ [(nid, racer_id r)]) nid rs))"

fun upsert_racers :: "racer list \<Rightarrow> tables \<Rightarrow> tables" where
  "upsert_racers [] t = t"
| "upsert_racers (r # rs) t = upsert_racers rs (upsert_user_name (racer_id r) (racer_name r) t)"

section \<open>The user registry\<close>






text \<open>
  The four profile setters are one statement each:
  \<^verbatim>\<open>UPDATE user_data SET timezone=%s WHERE discord_id=%s\<close>, and the same with
  \<^verbatim>\<open>rtmp_name\<close>, \<^verbatim>\<open>twitch_name\<close> and \<^verbatim>\<open>user_info\<close>, each with the parameters
  \<^verbatim>\<open>(value, discord_id)\<close>.
\<close>

definition set_timezone :: "int \<Rightarrow> string \<Rightarrow> conn \<Rightarrow> (error + unit) \<times> conn" where
  "set_timezone did tz c =
     with_DBConnect True
       (\<lambda>t. (Inr (), t\<lparr>user_data :=
                map (\<lambda>r. if discord_id r = did then r\<lparr>timezone := Some tz\<rparr> else r) (user_data t)\<rparr>)) c"

definition set_rtmp :: "int \<Rightarrow> string \<Rightarrow> conn \<Rightarrow> (error + unit) \<times> conn" where
  "set_rtmp did rtmp c =
     with_DBConnect True
       (\<lambda>t. (Inr (), t\<lparr>user_data :=
                map (\<lambda>r. if discord_id r = did then r\<lparr>rtmp_name := Some rtmp\<rparr> else r) (user_data t)\<rparr>)) c"

definition set_twitch :: "int \<Rightarrow> string \<Rightarrow> conn \<Rightarrow> (error + unit) \<times> conn" where
  "set_twitch did tw c =
     with_DBConnect True
       (\<lambda>t. (Inr (), t\<lparr>user_data :=
                map (\<lambda>r. if discord_id r = did then r\<lparr>twitch_name := Some tw\<rparr> else r) (user_data t)\<rparr>)) c"

definition set_user_info :: "int \<Rightarrow> string \<Rightarrow> conn \<Rightarrow> (error + unit) \<times> conn" where
  "set_user_info did info c =
     with_DBConnect True
       (\<lambda>t. (Inr (), t\<lparr>user_data :=
                map (\<lambda>r. if discord_id r = did then r\<lparr>user_info := Some info\<rparr> else r) (user_data t)\<rparr>)) c"

text \<open>
  What it means for a statement on \<^verbatim>\<open>user_data\<close> to touch one column of the rows of
  one user and nothing else: the other tables are the same, no row is added, removed or
  moved, the rows agree once the column is erased, the rows of other users are the same,
  and nothing at all changes when the user has no row.
\<close>

definition changes_only :: "(user_row \<Rightarrow> user_row) \<Rightarrow> int \<Rightarrow> tables \<Rightarrow> tables \<Rightarrow> bool" where
  "changes_only erase did t t' \<longleftrightarrow>
     t'\<lparr>user_data := user_data t\<rparr> = t \<and>
     map discord_id (user_data t') = map discord_id (user_data t) \<and>
     map erase (user_data t') = map erase (user_data t) \<and>
     [r \<leftarrow> user_data t'. discord_id r \<noteq> did] = [r \<leftarrow> user_data t. discord_id r \<noteq> did] \<and>
     (if did \<in> discord_id ` set (user_data t) then True else t' = t)"

section \<open>The daily challenge tracker\<close>

text \<open>The key of \<^verbatim>\<open>daily_races\<close>: \<^verbatim>\<open>discord_id=%s AND daily_id=%s AND type=%s\<close>.\<close>

definition daily_key :: "int \<Rightarrow> int \<Rightarrow> int \<Rightarrow> daily_race_row \<Rightarrow> bool" where
  "daily_key did i ty r \<longleftrightarrow> dr_discord_id r = did \<and> dr_daily_id r = i \<and> dr_type r = ty"

text \<open>
  \<^verbatim>\<open>
  def has_submitted_daily(discord_id, daily_id, daily_type):
      with DBConnect(commit=False) as cursor:
          cursor.execute(
              "SELECT discord_id FROM daily_races "
              "WHERE discord_id=%s AND daily_id=%s AND type=%s AND level != -1", params)
          return cursor.rowcount > 0
  \<close>
  \<^verbatim>\<open>has_registered_daily\<close> is the same without the condition on \<^verbatim>\<open>level\<close>. Neither
  fetches a row: \<^verbatim>\<open>cursor.rowcount\<close> is read straight after \<^verbatim>\<open>execute\<close>, and the scope
  is left with the result unread.
\<close>

definition has_submitted_daily :: "int \<Rightarrow> int \<Rightarrow> int \<Rightarrow> conn \<Rightarrow> (error + bool) \<times> conn" where
  "has_submitted_daily did i ty c =
     with_DBConnect_cursor False
       (\<lambda>t. let cur = execute_select
                         [dr_discord_id r. r \<leftarrow> daily_races t,
                            daily_key did i ty r \<and> dr_level r \<noteq> - 1]
             in (Inr (rowcount cur > 0), t, cur)) c"

definition has_registered_daily :: "int \<Rightarrow> int \<Rightarrow> int \<Rightarrow> conn \<Rightarrow> (error + bool) \<times> conn" where
  "has_registered_daily did i ty c =
     with_DBConnect_cursor False
       (\<lambda>t. let cur = execute_select
                         [dr_discord_id r. r \<leftarrow> daily_races t, daily_key did i ty r]
             in (Inr (rowcount cur > 0), t, cur)) c"

text \<open>
  \<^verbatim>\<open>
  def register_daily(discord_id, daily_id, daily_type, level=-1, time=-1):
      with DBConnect(commit=True) as cursor:
          params = (discord_id, daily_id, daily_type, level, time,)
          cursor.execute(
              "INSERT INTO daily_races (discord_id, daily_id, type, level, time) "
              "VALUES (%s,%s,%s,%s,%s) "
              "ON DUPLICATE KEY UPDATE discord_id=VALUES(discord_id), "
              "daily_id=VALUES(daily_id), type=VALUES(type), "
              "level=VALUES(level), time=VALUES(time)", params)
  \<close>
  The default values of \<^verbatim>\<open>level\<close> and \<^verbatim>\<open>time\<close> are left to the caller.
\<close>

definition upsert_daily_races :: "int \<Rightarrow> int \<Rightarrow> int \<Rightarrow> int \<Rightarrow> int \<Rightarrow> tables \<Rightarrow> tables" where
  "upsert_daily_races did i ty lv tm t =
     (if \<exists>r \<in> set (daily_races t). daily_key did i ty r
      then t\<lparr>daily_races :=
             map (\<lambda>r. if daily_key did i ty r
                       then r\<lparr>dr_discord_id := did, dr_daily_id := i, dr_type := ty,
                              dr_level := lv, dr_time := tm\<rparr>
                       else r) (daily_races t)\<rparr>
      else t\<lparr>daily_races := daily_races t @
             [\<lparr>dr_discord_id = did, dr_daily_id = i, dr_type = ty,
               dr_level = lv, dr_time = tm\<rparr>]\<rparr>)"

definition register_daily ::
  "int \<Rightarrow> int \<Rightarrow> int \<Rightarrow> int \<Rightarrow> int \<Rightarrow> conn \<Rightarrow> (error + unit) \<times> conn" where
  "register_daily did i ty lv tm c =
     with_DBConnect True (\<lambda>t. (Inr (), upsert_daily_races did i ty lv tm t)) c"

text \<open>
  \<^verbatim>\<open>delete_from_daily\<close>:
  \<^verbatim>\<open>UPDATE daily_races SET level=-1 WHERE discord_id=%s AND daily_id=%s AND type=%s\<close>.
\<close>

definition delete_from_daily :: "int \<Rightarrow> int \<Rightarrow> int \<Rightarrow> conn \<Rightarrow> (error + unit) \<times> conn" where
  "delete_from_daily did i ty c =
     with_DBConnect True
       (\<lambda>t. (Inr (), t\<lparr>daily_races :=
                map (\<lambda>r. if daily_key did i ty r then r\<lparr>dr_level := - 1\<rparr> else r) (daily_races t)\<rparr>)) c"

subsection \<open>The statements of \<^verbatim>\<open>registered_daily\<close> and \<^verbatim>\<open>submitted_daily\<close>\<close>

text \<open>
  Both functions build their statement from adjacent string literals, which Python
  concatenates as they are:
  \<^verbatim>\<open>
  def registered_daily(discord_id, daily_type):
          ...
          cursor.execute(
              "SELECT daily_id "
              "FROM daily_races "
              "WHERE discord_id=%s AND type=%s "
              "ORDER BY daily_id DESC "
              "LIMIT 1",
              params)
          return int(cursor.fetchone()[0]) if cursor.rowcount else 0

  def submitted_daily(discord_id, daily_type):
          ...
          cursor.execute(
              "SELECT daily_id "
              "FROM daily_races "
              "WHERE discord_id=%s AND type=%s AND level != -1"
              "ORDER BY daily_id DESC "
              "LIMIT 1",
              params)
          return int(cursor.fetchone()[0]) if cursor.rowcount else 0
  \<close>
  The third literal of \<^verbatim>\<open>submitted_daily\<close> has no space at its end, so the text sent to
  the server reads \<^verbatim>\<open>level != -1ORDER BY daily_id DESC LIMIT 1\<close>.

  The conditional expression tests \<^verbatim>\<open>cursor.rowcount\<close> first: it is -1 there, which is
  true for Python, so \<^verbatim>\<open>fetchone\<close> is called whatever the result holds, and its
  \<^verbatim>\<open>None\<close> on an empty result is subscripted (\<^verbatim>\<open>TypeError\<close>).
\<close>

definition registered_daily_sql :: string where
  "registered_daily_sql =
     ''SELECT daily_id '' @
     ''FROM daily_races '' @
     ''WHERE discord_id=%s AND type=%s '' @
     ''ORDER BY daily_id DESC '' @
     ''LIMIT 1''"

definition submitted_daily_sql :: string where
  "submitted_daily_sql =
     ''SELECT daily_id '' @
     ''FROM daily_races '' @
     ''WHERE discord_id=%s AND type=%s AND level != -1'' @
     ''ORDER BY daily_id DESC '' @
     ''LIMIT 1''"

text \<open>
  What the server's lexer makes of such a text, as far as these two statements need it: a
  word is a maximal run of letters, digits, \<^verbatim>\<open>_\<close> and \<^verbatim>\<open>$\<close>, and a run that starts
  with digits and goes on with a letter is one word, an identifier (so \<^verbatim>\<open>1ORDER\<close> is
  not the number 1 followed by the keyword). The keyword \<^verbatim>\<open>BY\<close> is accepted only straight
  after the word \<^verbatim>\<open>ORDER\<close> or \<^verbatim>\<open>GROUP\<close>; anywhere else the server answers with a
  syntax error, which the connector raises as \<^verbatim>\<open>ProgrammingError\<close>.
\<close>

definition ident_char :: "char \<Rightarrow> bool" where
  "ident_char ch =
     (let n = (of_char ch :: nat)
      in (48 \<le> n \<and> n \<le> 57) \<or> (65 \<le> n \<and> n \<le> 90) \<or> (97 \<le> n \<and> n \<le> 122) \<or> n = 95 \<or> n = 36)"

fun sql_words :: "string \<Rightarrow> string \<Rightarrow> string list" where
  "sql_words w [] = (if w = [] then [] else [w])"
| "sql_words w (ch # cs) =
     (if ident_char ch then sql_words (w @ [ch]) cs
      else (if w = [] then [] else [w]) @ sql_words [] cs)"

fun by_after_keyword :: "string \<Rightarrow> string list \<Rightarrow> bool" where
  "by_after_keyword v [] = True"
| "by_after_keyword v (w # ws) =
     ((if w = ''BY'' then v = ''ORDER'' \<or> v = ''GROUP'' else True) \<and> by_after_keyword w ws)"

definition mysql_parses :: "string \<Rightarrow> bool" where
  "mysql_parses q = by_after_keyword [] (sql_words [] q)"

text \<open>
  \<^verbatim>\<open>return int(cursor.fetchone()[0]) if cursor.rowcount else 0\<close>, on the cursor that
  \<^verbatim>\<open>execute\<close> left.
\<close>

definition first_or_zero :: "int cursor \<Rightarrow> (error + int) \<times> int cursor" where
  "first_or_zero cur =
     (if rowcount cur \<noteq> 0
      then (case fetchone cur of
              (None, cur') \<Rightarrow> (Inl TypeError, cur')
            | (Some x, cur') \<Rightarrow> (Inr x, cur'))
      else (Inr 0, cur))"

definition registered_daily :: "int \<Rightarrow> int \<Rightarrow> conn \<Rightarrow> (error + int) \<times> conn" where
  "registered_daily did ty c =
     with_DBConnect_cursor False
       (\<lambda>t. if \<not> mysql_parses registered_daily_sql then (Inl ProgrammingError, t,
                   \<lparr>unfetched = [], rowcount = - 1, unread_result = False\<rparr>)
             else (case first_or_zero (execute_select (take 1 (rev (sort (map dr_daily_id
                          [r \<leftarrow> daily_races t. dr_discord_id r = did \<and> dr_type r = ty]))))) of
                     (res, cur) \<Rightarrow> (res, t, cur))) c"

definition submitted_daily :: "int \<Rightarrow> int \<Rightarrow> conn \<Rightarrow> (error + int) \<times> conn" where
  "submitted_daily did ty c =
     with_DBConnect_cursor False
       (\<lambda>t. if \<not> mysql_parses submitted_daily_sql then (Inl ProgrammingError, t,
                   \<lparr>unfetched = [], rowcount = - 1, unread_result = False\<rparr>)
             else (case first_or_zero (execute_select (take 1 (rev (sort (map dr_daily_id
                          [r \<leftarrow> daily_races t.
                             dr_discord_id r = did \<and> dr_type r = ty \<and> dr_level r \<noteq> - 1]))))) of
                     (res, cur) \<Rightarrow> (res, t, cur))) c"

section \<open>The leaderboard of fastest times\<close>

text \<open>
  \<^verbatim>\<open>
  SELECT user_data.name, racer_data.time, race_data.seed, race_data.timestamp
  FROM racer_data
  INNER JOIN
  (   SELECT discord_id, MIN(time) AS min_time
      FROM racer_data INNER JOIN race_data ON race_data.race_id = racer_data.race_id
      WHERE time > 0 AND level = -2 AND race_data.character_name=%s
          AND race_data.descriptor='All-zones' AND race_data.seeded
          AND [NOT ]race_data.amplified AND NOT race_data.private
      Group By discord_id
  ) rd1 On rd1.discord_id = racer_data.discord_id
  INNER JOIN user_data ON user_data.discord_id = racer_data.discord_id
  INNER JOIN race_data ON race_data.race_id = racer_data.race_id
  WHERE racer_data.time = rd1.min_time
  ORDER BY racer_data.time ASC
  LIMIT %s
  \<close>
  The conditions on the race stand in the inner query only. The outer query joins every
  row of \<^verbatim>\<open>racer_data\<close> of the user whose time is the minimum, whatever its race is.
  Rows of equal time are kept in the order of the join.
\<close>

definition qualifying :: "string \<Rightarrow> bool \<Rightarrow> racer_row \<Rightarrow> race_row \<Rightarrow> bool" where
  "qualifying cn amp r rc \<longleftrightarrow>
     rd_time r > 0 \<and> rd_level r = - 2 \<and> character_name rc = cn \<and>
     descriptor rc = ''All-zones'' \<and> seeded rc \<and> (if amp then amplified rc else \<not> amplified rc) \<and>
     \<not> private_col rc"

definition rd1 :: "string \<Rightarrow> bool \<Rightarrow> tables \<Rightarrow> (int \<times> int) list" where
  "rd1 cn amp t =
     (let rows = [r. r \<leftarrow> racer_data t, rc \<leftarrow> race_data t,
                     race_id rc = rd_race_id r, qualifying cn amp r rc]
      in map (\<lambda>d. (d, Min (set (map rd_time [r \<leftarrow> rows. rd_discord_id r = d]))))
           (remdups (map rd_discord_id rows)))"

definition get_fastest_times_leaderboard ::
  "string \<Rightarrow> bool \<Rightarrow> nat \<Rightarrow> conn \<Rightarrow> (error + (string option \<times> int \<times> int \<times> string) list) \<times> conn" where
  "get_fastest_times_leaderboard cn amp limit c =
     with_DBConnect False
       (\<lambda>t. (Inr (take limit (sort_key (\<lambda>row. fst (snd row))
                 [(name u, rd_time r, seed rc, timestamp rc).
                    r \<leftarrow> racer_data t, g \<leftarrow> rd1 cn amp t, fst g = rd_discord_id r,
                    u \<leftarrow> user_data t, discord_id u = rd_discord_id r,
                    rc \<leftarrow> race_data t, race_id rc = rd_race_id r,
                    rd_time r = snd g])), t)) c"

section \<open>The rating store\<close>

text \<open>
  Modelled from the spec: \<^verbatim>\<open>create_rating\<close> of \<^verbatim>\<open>necrobot.ladder.rating\<close>, which is not
  among the sources; the specification takes it as the opaque function
  \<^verbatim>\<open>create_rating(mu, sigma) -> Rating\<close> with \<^verbatim>\<open>Rating{mu, sigma}\<close>.
\<close>

record rating =
  mu :: real
  sigma :: real

definition create_rating :: "real \<Rightarrow> real \<Rightarrow> rating" where
  "create_rating m s = \<lparr>mu = m, sigma = s\<rparr>"

text \<open>Python's \<^verbatim>\<open>int\<close> on a number: truncation towards zero.\<close>

definition py_int :: "real \<Rightarrow> int" where
  "py_int x = (if x < 0 then \<lceil>x\<rceil> else \<lfloor>x\<rfloor>)"

text \<open>
  \<^verbatim>\<open>
  def set_rating(discord_id, rating):
      with DBConnect(commit=True) as cursor:
          params = (rating.mu, rating.sigma, discord_id,)
          cursor.execute(
              "INSERT INTO ladder_data "
              "(discord_id, trueskill_mu, trueskill_sigma) "
              "VALUES (%s,%s,%s) "
              "ON DUPLICATE KEY UPDATE "
              "trueskill_mu=VALUES(trueskill_mu), "
              "trueskill_sigma=VALUES(trueskill_sigma)",
              params)
  \<close>
  The parameters are bound by position: the first, \<^verbatim>\<open>rating.mu\<close>, goes to the column
  \<^verbatim>\<open>discord_id\<close>, the second, \<^verbatim>\<open>rating.sigma\<close>, to \<^verbatim>\<open>trueskill_mu\<close>, and the third,
  \<^verbatim>\<open>discord_id\<close>, to \<^verbatim>\<open>trueskill_sigma\<close>. What a column keeps of a number sent to it
  depends on the type of the column, which the sources do not give: it is the parameter
  \<open>col\<close>. The columns may keep the number as it is, keep its integer part (as
  section 3 of the specification has it), or round it (as an integer column of the
  server does).
\<close>

definition upsert_ladder_data :: "ladder_row \<Rightarrow> tables \<Rightarrow> tables" where
  "upsert_ladder_data row t =
     (if ld_discord_id row \<in> set (map ld_discord_id (ladder_data t))
      then t\<lparr>ladder_data :=
             map (\<lambda>r. if ld_discord_id r = ld_discord_id row
                       then r\<lparr>trueskill_mu := trueskill_mu row,
                              trueskill_sigma := trueskill_sigma row\<rparr>
                       else r) (ladder_data t)\<rparr>
      else t\<lparr>ladder_data := ladder_data t @ [row]\<rparr>)"

definition set_rating :: "(real \<Rightarrow> real) \<Rightarrow> int \<Rightarrow> rating \<Rightarrow> conn \<Rightarrow> (error + unit) \<times> conn" where
  "set_rating col did r c =
     with_DBConnect True
       (\<lambda>t. case (mu r, sigma r, of_int did) of
               (p1, p2, p3) \<Rightarrow>
                 (Inr (), upsert_ladder_data
                    \<lparr>ld_discord_id = col p1, trueskill_mu = col p2, trueskill_sigma = col p3\<rparr> t)) c"

definition truncated :: "real \<Rightarrow> real" where
  "truncated x = of_int (py_int x)"

definition rounded :: "real \<Rightarrow> real" where
  "rounded x = of_int (round x)"

text \<open>
  \<^verbatim>\<open>
  def get_rating(discord_id):
      with DBConnect(commit=False) as cursor:
          cursor.execute(
              "SELECT trueskill_mu, trueskill_sigma FROM ladder_data WHERE discord_id=%s",
              params)
          row = cursor.fetchone()
          return create_rating(mu=int(row[0]), sigma=int(row[1])) if row is not None else None
  \<close>
\<close>

definition get_rating :: "int \<Rightarrow> conn \<Rightarrow> (error + rating option) \<times> conn" where
  "get_rating did c =
     with_DBConnect False
       (\<lambda>t. (Inr (case [r \<leftarrow> ladder_data t. ld_discord_id r = of_int did] of
                     [] \<Rightarrow> None
                   | row # _ \<Rightarrow>
                       Some (create_rating (of_int (py_int (trueskill_mu row)))
                                           (of_int (py_int (trueskill_sigma row))))), t)) c"

section \<open>Concrete stores and races\<close>

text \<open>
  An empty store, a race of three finishers with the times 10, 20 and 30 and one racer
  who did not finish, and a race whose list of racers holds the same racer twice.
\<close>

definition empty_tables :: tables where
  "empty_tables =
     \<lparr>user_data = [], race_data = [], racer_data = [], daily_races = [], ladder_data = []\<rparr>"

definition empty_conn :: conn where
  "empty_conn = \<lparr>committed = empty_tables, working = empty_tables\<rparr>"

definition example_racer :: "int \<Rightarrow> string \<Rightarrow> int \<Rightarrow> bool \<Rightarrow> racer" where
  "example_racer i nm t fin =
     \<lparr>racer_id = i, racer_name = nm, time = t, is_finished = fin, igt = t, comment = [],
      level = (if fin then - 2 else 3)\<rparr>"

definition example_info :: race_info where
  "example_info =
     \<lparr>character_str = ''Cadence'', ri_descriptor = ''All-zones'', ri_flags = [], ri_seed = 7,
      ri_seeded = True, ri_amplified = False, condor_race = False, private_race = False\<rparr>"

definition example_race :: race where
  "example_race =
     \<lparr>start_datetime = ''2016-11-04 20:00:00'', race_info = example_info,
      racers = [example_racer 4 ''dee'' 0 False, example_racer 3 ''cee'' 30 True,
                example_racer 1 ''ay'' 10 True, example_racer 2 ''bee'' 20 True]\<rparr>"

definition clashing_race :: race where
  "clashing_race =
     \<lparr>start_datetime = ''2016-11-04 21:00:00'', race_info = example_info,
      racers = [example_racer 1 ''ay'' 10 True, example_racer 1 ''ay'' 20 True]\<rparr>"

text \<open>
  A store with two users; a store with one submitted daily run; the store left by a public
  race and a private, unseeded race that the same racer finished in the same time; a
  rating with fractional parts.
\<close>

definition prefs_tables :: tables where
  "prefs_tables =
     empty_tables\<lparr>user_data :=
       [\<lparr>discord_id = 1, name = Some ''ay'', twitch_name = Some ''ay_tv'', rtmp_name = None,
         timezone = Some ''UTC'', user_info = None, daily_alert = Some True, race_alert = None\<rparr>,
        \<lparr>discord_id = 2, name = Some ''bee'', twitch_name = None, rtmp_name = None,
         timezone = None, user_info = Some ''hi'', daily_alert = Some False,
         race_alert = Some True\<rparr>]\<rparr>"

definition prefs_conn :: conn where
  "prefs_conn = \<lparr>committed = prefs_tables, working = prefs_tables\<rparr>"

definition daily_conn :: conn where
  "daily_conn =
     \<lparr>committed = empty_tables\<lparr>daily_races :=
        [\<lparr>dr_discord_id = 1, dr_daily_id = 3, dr_type = 0, dr_level = 5, dr_time = 100\<rparr>]\<rparr>,
      working = empty_tables\<lparr>daily_races :=
        [\<lparr>dr_discord_id = 1, dr_daily_id = 3, dr_type = 0, dr_level = 5, dr_time = 100\<rparr>]\<rparr>\<rparr>"

definition public_race :: race where
  "public_race =
     \<lparr>start_datetime = ''2016-11-04 20:00:00'', race_info = example_info,
      racers = [example_racer 1 ''ay'' 100 True]\<rparr>"

definition private_race_100 :: race where
  "private_race_100 =
     \<lparr>start_datetime = ''2016-11-05 20:00:00'',
      race_info = example_info\<lparr>ri_seed := 8, ri_seeded := False, private_race := True\<rparr>,
      racers = [example_racer 1 ''ay'' 100 True]\<rparr>"

definition leaderboard_conn :: conn where
  "leaderboard_conn = snd (record_race private_race_100 (snd (record_race public_race empty_conn)))"

definition example_rating :: rating where
  "example_rating = \<lparr>mu = 257 / 10, sigma = 83 / 10\<rparr>"

section \<open>Properties of \<^verbatim>\<open>record_race\<close>\<close>

lemma sorted_le_last: "sorted ys \<Longrightarrow> y \<in> set ys \<Longrightarrow> y \<le> last ys"
  by (induction ys) auto

lemma last_sort_Max: "xs \<noteq> [] \<Longrightarrow> last (sort xs) = Max (set xs)"
proof -
  assume ne: "xs \<noteq> []"
  have "Max (set (sort xs)) = last (sort xs)"
  proof (rule Max_eqI)
    show "finite (set (sort xs))" by simp
    show "\<And>y. y \<in> set (sort xs) \<Longrightarrow> y \<le> last (sort xs)"
      using sorted_le_last[OF sorted_sort] by blast
    show "last (sort xs) \<in> set (sort xs)" using ne by (metis last_in_set set_empty set_sort)
  qed
  then show ?thesis by simp
qed

lemma new_raceid_eq:
  "new_raceid t = (if race_data t = [] then 0 else Max (set (map race_id (race_data t))) + 1)"
proof (cases "race_data t = []")
  case True
  then show ?thesis by (simp add: new_raceid_def)
next
  case False
  then have ne: "map race_id (race_data t) \<noteq> []" by simp
  then have "rev (sort (map race_id (race_data t))) \<noteq> []" by (metis rev_is_Nil_conv set_empty set_sort)
  then obtain x ys where xs: "rev (sort (map race_id (race_data t))) = x # ys"
    by (cases "rev (sort (map race_id (race_data t)))") auto
  then have "x = hd (rev (sort (map race_id (race_data t))))" by simp
  also have "\<dots> = last (sort (map race_id (race_data t)))" by (rule hd_rev)
  also have "\<dots> = Max (set (map race_id (race_data t)))" using ne by (rule last_sort_Max)
  finally show ?thesis using xs False by (simp add: new_raceid_def)
qed

lemma new_raceid_fresh: "r \<in> set (race_data t) \<Longrightarrow> race_id r < new_raceid t"
proof -
  assume r: "r \<in> set (race_data t)"
  then have ne: "race_data t \<noteq> []" by auto
  have "race_id r \<le> Max (set (map race_id (race_data t)))"
    using r by (intro Max_ge) auto
  then show ?thesis using ne by (simp add: new_raceid_eq)
qed

lemma insert_race_data_new:
  "insert_race_data (race_params (new_raceid t) rc) t =
     Inr (t\<lparr>race_data := race_data t @ [race_params (new_raceid t) rc]\<rparr>)"
  using new_raceid_fresh[of _ t] by (fastforce simp: insert_race_data_def race_params_def)


lemma record_racers_race_data: "race_data (snd (record_racers nid k rs t)) = race_data t"
  by (induction rs arbitrary: k t)
     (auto simp: insert_racer_data_def upsert_user_name_def split: sum.splits)

lemma record_racers_ok:
  "distinct (map racer_id rs) \<Longrightarrow>
   \<forall>row \<in> set (racer_data t). rd_race_id row = nid \<longrightarrow> rd_discord_id row \<notin> racer_id ` set rs \<Longrightarrow>
   fst (record_racers nid k rs t) = Inr () \<and>
   racer_data (snd (record_racers nid k rs t)) = racer_data t @ racer_rows nid k rs"
  by (induction rs arbitrary: k t)
     (auto simp: insert_racer_data_def upsert_user_name_def racer_params_def split: sum.splits)

lemma foldl_max_time_ge:
  "a \<le> foldl (\<lambda>m r. if is_finished r then max (time r) m else m) a rs"
proof (induction rs arbitrary: a)
  case Nil
  show ?case by simp
next
  case (Cons r rs)
  have "a \<le> (if is_finished r then max (time r) a else a)" by simp
  also have "\<dots> \<le> foldl (\<lambda>m r. if is_finished r then max (time r) m else m)
                      (if is_finished r then max (time r) a else a) rs"
    by (rule Cons.IH)
  finally show ?case by simp
qed

lemma foldl_max_time_finisher:
  "f \<in> set rs \<Longrightarrow> is_finished f \<Longrightarrow>
   time f \<le> foldl (\<lambda>m r. if is_finished r then max (time r) m else m) a rs"
proof (induction rs arbitrary: a)
  case Nil
  then show ?case by simp
next
  case (Cons r rs)
  show ?case
  proof (cases "f = r")
    case True
    have "time f \<le> max (time r) a" using True by simp
    also have "\<dots> \<le> foldl (\<lambda>m r. if is_finished r then max (time r) m else m) (max (time r) a) rs"
      by (rule foldl_max_time_ge)
    finally show ?thesis using True Cons.prems by simp
  next
    case False
    then have "f \<in> set rs" using Cons.prems by simp
    then show ?thesis using Cons.IH Cons.prems by simp
  qed
qed

lemma finisher_before_max_time: "f \<in> set rs \<Longrightarrow> is_finished f \<Longrightarrow> time f < max_time rs"
  using foldl_max_time_finisher[of f rs 0] by (simp add: max_time_def)

lemma racer_rows_sorted:
  assumes "sorted (map (\<lambda>r. if is_finished r then time r else M) ys)"
    and "\<forall>f\<in>set ys. is_finished f \<longrightarrow> time f < M"
    and "distinct (map time (filter is_finished ys))"
  shows "racer_rows nid k ys = map (\<lambda>r. racer_params nid (k - 1 + rank_by_time ys r) r) ys"
  using assms
proof (induction ys arbitrary: k)
  case Nil
  show ?case by simp
next
  case (Cons y ys)
  let ?key = "\<lambda>r. if is_finished r then time r else M"
  have sorted_tl: "sorted (map ?key ys)" and le: "\<forall>r\<in>set ys. ?key y \<le> ?key r"
    using Cons.prems(1) by auto
  have lt: "\<forall>f\<in>set ys. is_finished f \<longrightarrow> time f < M" using Cons.prems(2) by simp
  have dist_tl: "distinct (map time (filter is_finished ys))"
    using Cons.prems(3) by (simp split: if_splits)
  note IH = Cons.IH[OF sorted_tl lt dist_tl]
  show ?case
  proof (cases "is_finished y")
    case True
    have later: "\<forall>r\<in>set ys. is_finished r \<longrightarrow> time y < time r"
    proof (intro ballI impI)
      fix r assume r: "r \<in> set ys" "is_finished r"
      then have "time y \<le> time r" using le True by auto
      moreover have "time y \<noteq> time r"
        using Cons.prems(3) True r by auto
      ultimately show "time y < time r" by simp
    qed
    have head: "rank_by_time (y # ys) y = 1"
    proof -
      have "[f \<leftarrow> y # ys. is_finished f \<and> time f < time y] = []"
        using later by (auto simp: filter_empty_conv)
      then show ?thesis using True by (simp add: rank_by_time_def)
    qed
    have tail: "\<forall>r\<in>set ys. rank_by_time (y # ys) r = 1 + rank_by_time ys r"
      using later True by (auto simp: rank_by_time_def)
    have "map (\<lambda>r. racer_params nid (k + 1 - 1 + rank_by_time ys r) r) ys =
          map (\<lambda>r. racer_params nid (k - 1 + rank_by_time (y # ys) r) r) ys"
      using tail by (intro map_cong) auto
    then show ?thesis using True head IH[of "k + 1"] by simp
  next
    case False
    have none: "\<forall>r\<in>set ys. \<not> is_finished r"
    proof
      fix r assume r: "r \<in> set ys"
      show "\<not> is_finished r"
      proof
        assume "is_finished r"
        then have "time r < M" "M \<le> time r" using lt le r False by auto
        then show False by simp
      qed
    qed
    then have nofin: "filter is_finished ys = []" by (auto simp: filter_empty_conv)
    have head: "rank_by_time (y # ys) y = 1"
      using False nofin by (simp add: rank_by_time_def)
    have tail: "\<forall>r\<in>set ys. rank_by_time (y # ys) r = rank_by_time ys r"
      using False by (auto simp: rank_by_time_def)
    have "map (\<lambda>r. racer_params nid (k - 1 + rank_by_time ys r) r) ys =
          map (\<lambda>r. racer_params nid (k - 1 + rank_by_time (y # ys) r) r) ys"
      using tail by (intro map_cong) auto
    then show ?thesis using False head IH[of k] by simp
  qed
qed

lemma length_filter_sort_key: "length (filter P (sort_key f xs)) = length (filter P xs)"
proof -
  have "mset (filter P (sort_key f xs)) = mset (filter P xs)" by simp
  then show ?thesis by (metis size_mset)
qed

lemma rank_by_time_racer_list: "rank_by_time (racer_list rs) r = rank_by_time rs r"
  by (simp add: rank_by_time_def racer_list_def length_filter_sort_key)

lemma distinct_finisher_times_racer_list:
  "distinct (map time (filter is_finished rs)) \<Longrightarrow>
   distinct (map time (filter is_finished (racer_list rs)))"
proof -
  assume d: "distinct (map time (filter is_finished rs))"
  have "mset (map time (filter is_finished (racer_list rs))) = mset (map time (filter is_finished rs))"
    by (simp add: racer_list_def)
  then show ?thesis using d by (metis mset_eq_imp_distinct_iff)
qed

lemma racer_rows_racer_list:
  assumes "distinct (map time (filter is_finished rs))"
  shows "racer_rows nid 1 (racer_list rs) =
           map (\<lambda>r. racer_params nid (rank_by_time rs r) r) (racer_list rs)"
proof -
  have "sorted (map (\<lambda>r. if is_finished r then time r else max_time rs) (racer_list rs))"
    by (simp add: racer_list_def)
  moreover have "\<forall>f\<in>set (racer_list rs). is_finished f \<longrightarrow> time f < max_time rs"
    using finisher_before_max_time by (simp add: racer_list_def)
  ultimately have "racer_rows nid 1 (racer_list rs) =
      map (\<lambda>r. racer_params nid (1 - 1 + rank_by_time (racer_list rs) r) r) (racer_list rs)"
    using distinct_finisher_times_racer_list[OF assms] by (rule racer_rows_sorted)
  then show ?thesis by (simp add: rank_by_time_racer_list)
qed


lemma strictly_sorted_ranks:
  "sorted_wrt (<) (map time F) \<Longrightarrow>
   map (\<lambda>r. 1 + int (length [f \<leftarrow> F. time f < time r])) F = [1..int (length F)]"
proof (induction F rule: rev_induct)
  case Nil
  show ?case by simp
next
  case (snoc z F)
  have sw: "sorted_wrt (<) (map time F)" and before: "\<forall>f\<in>set F. time f < time z"
    using snoc.prems by (auto simp: sorted_wrt_append)
  have "map (\<lambda>r. 1 + int (length [f \<leftarrow> F @ [z]. time f < time r])) F =
        map (\<lambda>r. 1 + int (length [f \<leftarrow> F. time f < time r])) F"
    using before by (intro map_cong) auto
  moreover have "[f \<leftarrow> F @ [z]. time f < time z] = F"
    using before by (simp add: filter_id_conv)
  moreover have "[1..int (length F) + 1] = [1..int (length F)] @ [int (length F) + 1]"
    by (simp add: upto_rec2)
  ultimately show ?case using snoc.IH[OF sw] by (simp add: add.commute)
qed

lemma finishers_racer_list_sorted: "sorted (map time (filter is_finished (racer_list rs)))"
proof -
  have "sorted (map (\<lambda>r. if is_finished r then time r else max_time rs) (racer_list rs))"
    by (simp add: racer_list_def)
  then have "sorted (map (\<lambda>r. if is_finished r then time r else max_time rs)
                       (filter is_finished (racer_list rs)))"
    by (rule sorted_filter)
  moreover have "map (\<lambda>r. if is_finished r then time r else max_time rs)
                   (filter is_finished (racer_list rs)) =
                 map time (filter is_finished (racer_list rs))"
    by (intro map_cong) auto
  ultimately show ?thesis by simp
qed

lemma finisher_ranks:
  assumes "distinct (map time (filter is_finished rs))"
  shows "map (rank_by_time rs) (filter is_finished (racer_list rs)) =
           [1..int (length (filter is_finished rs))]"
proof -
  let ?F = "filter is_finished (racer_list rs)"
  have strict: "sorted_wrt (<) (map time ?F)"
    using finishers_racer_list_sorted[of rs] distinct_finisher_times_racer_list[OF assms]
    by (simp add: strict_sorted_iff)
  have count: "length [f \<leftarrow> rs. is_finished f \<and> time f < x] = length [f \<leftarrow> ?F. time f < x]" for x
  proof -
    have "length [f \<leftarrow> rs. is_finished f \<and> time f < x] =
          length [f \<leftarrow> racer_list rs. is_finished f \<and> time f < x]"
      by (simp add: racer_list_def length_filter_sort_key)
    also have "[f \<leftarrow> racer_list rs. is_finished f \<and> time f < x] = [f \<leftarrow> ?F. time f < x]"
      by (simp add: conj_commute)
    finally show ?thesis .
  qed
  have "map (rank_by_time rs) ?F = map (\<lambda>r. 1 + int (length [f \<leftarrow> ?F. time f < time r])) ?F"
    by (intro map_cong) (auto simp: rank_by_time_def count)
  also have "\<dots> = [1..int (length ?F)]" using strict by (rule strictly_sorted_ranks)
  also have "length ?F = length (filter is_finished rs)"
    by (simp add: racer_list_def length_filter_sort_key)
  finally show ?thesis .
qed

lemma distinct_ids_racer_list:
  "distinct (map racer_id rs) \<Longrightarrow> distinct (map racer_id (racer_list rs))"
proof -
  assume d: "distinct (map racer_id rs)"
  have "mset (map racer_id (racer_list rs)) = mset (map racer_id rs)"
    by (simp add: racer_list_def)
  then show ?thesis using d by (metis mset_eq_imp_distinct_iff)
qed

lemma record_race_body_eq:
  "record_race_body rc t =
     record_racers (new_raceid t) 1 (racer_list (racers rc))
       (t\<lparr>race_data := race_data t @ [race_params (new_raceid t) rc]\<rparr>)"
  by (simp add: record_race_body_def Let_def insert_race_data_new)

lemma record_race_eq:
  "record_race rc c =
     (fst (record_race_body rc (working c)),
      \<lparr>committed = snd (record_race_body rc (working c)),
       working = snd (record_race_body rc (working c))\<rparr>)"
  by (simp add: record_race_def with_DBConnect_def DBConnect_exit_def split: prod.splits)

lemma record_race_body_rows:
  assumes ids: "distinct (map racer_id (racers rc))"
    and times: "distinct (map time (filter is_finished (racers rc)))"
    and ref: "rd_race_id ` set (racer_data t) \<subseteq> race_id ` set (race_data t)"
  shows "fst (record_race_body rc t) = Inr () \<and>
         racer_data (snd (record_race_body rc t)) =
           racer_data t @
           map (\<lambda>r. racer_params (new_raceid t) (rank_by_time (racers rc) r) r)
             (racer_list (racers rc))"
proof -
  let ?nid = "new_raceid t"
  let ?t1 = "t\<lparr>race_data := race_data t @ [race_params ?nid rc]\<rparr>"
  have body: "record_race_body rc t = record_racers ?nid 1 (racer_list (racers rc)) ?t1"
    by (rule record_race_body_eq)
  have fresh: "\<forall>row \<in> set (racer_data ?t1).
                 rd_race_id row = ?nid \<longrightarrow> rd_discord_id row \<notin> racer_id ` set (racer_list (racers rc))"
  proof (intro ballI impI)
    fix row assume row: "row \<in> set (racer_data ?t1)" and eq: "rd_race_id row = ?nid"
    from row ref obtain r where "r \<in> set (race_data t)" "race_id r = rd_race_id row" by auto
    then have False using new_raceid_fresh[of r t] eq by simp
    then show "rd_discord_id row \<notin> racer_id ` set (racer_list (racers rc))" ..
  qed
  from record_racers_ok[OF distinct_ids_racer_list[OF ids] fresh, of 1]
  show ?thesis by (simp add: body racer_rows_racer_list[OF times])
qed

lemma record_race_race_data:
  "race_data (working (snd (record_race rc c))) =
     race_data (working c) @ [race_params (new_raceid (working c)) rc]"
  by (simp add: record_race_eq record_race_body_eq record_racers_race_data)

lemma new_raceid_after_record_race:
  "new_raceid (working (snd (record_race rc c))) = new_raceid (working c) + 1"
proof -
  let ?t = "working c"
  let ?ids = "set (map race_id (race_data ?t))"
  have "Max (insert (new_raceid ?t) ?ids) = new_raceid ?t"
    using new_raceid_fresh[of _ ?t] by (intro Max_eqI) (auto intro: less_imp_le)
  then show ?thesis
    by (simp add: new_raceid_eq[of "working (snd (record_race rc c))"] record_race_race_data
        race_params_def)
qed

lemma assigned_race_ids_lower:
  "i \<in> set (assigned_race_ids rcs c) \<Longrightarrow> new_raceid (working c) \<le> i"
proof (induction rcs arbitrary: c)
  case Nil
  then show ?case by simp
next
  case (Cons rc rcs)
  then show ?case
    using new_raceid_after_record_race[of rc c] by fastforce
qed

lemma assigned_race_ids_increasing: "sorted_wrt (<) (assigned_race_ids rcs c)"
proof (induction rcs arbitrary: c)
  case Nil
  show ?case by simp
next
  case (Cons rc rcs)
  have "\<forall>i\<in>set (assigned_race_ids rcs (snd (record_race rc c))). new_raceid (working c) < i"
    using assigned_race_ids_lower[of _ rcs "snd (record_race rc c)"]
      new_raceid_after_record_race[of rc c] by fastforce
  then show ?case using Cons.IH by simp
qed



text \<open>
  Claim C1, as the code has it. When the racers of a race have distinct ids, the
  finishers have distinct times and every stored result belongs to a stored race,
  \<^verbatim>\<open>record_race\<close> succeeds and appends one result row for each racer, in the sorted
  order, with the rank \<open>rank_by_time\<close>: the finishers, in ascending order of time,
  get the ranks \<open>1, \<dots>, N\<close>, and every racer who did not finish gets \<open>N + 1\<close>, the
  value of the counter after the last finisher (1 when nobody finished).
\<close>

theorem record_race_ranks:
  assumes "distinct (map racer_id (racers rc))"
    and "distinct (map time (filter is_finished (racers rc)))"
    and "rd_race_id ` set (racer_data (working c)) \<subseteq> race_id ` set (race_data (working c))"
  shows "fst (record_race rc c) = Inr () \<and>
         racer_data (committed (snd (record_race rc c))) =
           racer_data (working c) @
           map (\<lambda>r. racer_params (new_raceid (working c)) (rank_by_time (racers rc) r) r)
             (racer_list (racers rc)) \<and>
         sorted (map time (filter is_finished (racer_list (racers rc)))) \<and>
         map (rank_by_time (racers rc)) (filter is_finished (racer_list (racers rc))) =
           [1..int (length (filter is_finished (racers rc)))] \<and>
         map (rank_by_time (racers rc)) (filter (\<lambda>r. \<not> is_finished r) (racer_list (racers rc))) =
           replicate (length (filter (\<lambda>r. \<not> is_finished r) (racers rc)))
             (int (length (filter is_finished (racers rc))) + 1)"
proof -
  have "map (rank_by_time (racers rc)) (filter (\<lambda>r. \<not> is_finished r) (racer_list (racers rc))) =
        map (\<lambda>r. int (length (filter is_finished (racers rc))) + 1)
          (filter (\<lambda>r. \<not> is_finished r) (racer_list (racers rc)))"
    by (intro map_cong) (auto simp: rank_by_time_def)
  then have dnf: "map (rank_by_time (racers rc))
                    (filter (\<lambda>r. \<not> is_finished r) (racer_list (racers rc))) =
      replicate (length (filter (\<lambda>r. \<not> is_finished r) (racers rc)))
        (int (length (filter is_finished (racers rc))) + 1)"
    by (simp add: map_replicate_const racer_list_def length_filter_sort_key)
  show ?thesis
    using record_race_body_rows[OF assms] finisher_ranks[OF assms(2)]
      finishers_racer_list_sorted[of "racers rc"] dnf
    by (simp add: record_race_eq)
qed

theorem record_race_ranks_witness:
  "distinct (map racer_id (racers example_race)) \<and>
   distinct (map time (filter is_finished (racers example_race))) \<and>
   rd_race_id ` set (racer_data (working empty_conn)) \<subseteq> race_id ` set (race_data (working empty_conn)) \<and>
   fst (record_race example_race empty_conn) = Inr () \<and>
   map (rank_by_time (racers example_race)) (filter is_finished (racer_list (racers example_race))) =
     [1, 2, 3] \<and>
   map (rank_by_time (racers example_race))
     (filter (\<lambda>r. \<not> is_finished r) (racer_list (racers example_race))) = [4]"
proof -
  have h1: "distinct (map racer_id (racers example_race))"
    by (simp add: example_race_def example_racer_def)
  have h2: "distinct (map time (filter is_finished (racers example_race)))"
    by (simp add: example_race_def example_racer_def)
  have h3: "rd_race_id ` set (racer_data (working empty_conn))
              \<subseteq> race_id ` set (race_data (working empty_conn))"
    by (simp add: empty_conn_def empty_tables_def)
  have n: "length (filter is_finished (racers example_race)) = 3"
    "length (filter (\<lambda>r. \<not> is_finished r) (racers example_race)) = 1"
    by (simp_all add: example_race_def example_racer_def)
  have u: "[1..3] = [1, 2, 3::int]" by code_simp
  show ?thesis
    using h1 h2 h3 record_race_ranks[OF h1 h2 h3] by (simp add: n u)
qed

text \<open>
  The example of claim C1: the racer who did not finish is stored with rank 4, not with
  rank 3, the rank of the last finisher.
\<close>

theorem record_race_nonfinisher_rank_counterexample:
  "map (\<lambda>row. (rd_discord_id row, rd_time row, rd_rank row))
     (racer_data (committed (snd (record_race example_race empty_conn)))) =
     [(1, 10, 1), (2, 20, 2), (3, 30, 3), (4, 0, 4)] \<and>
   map rd_rank [row \<leftarrow> racer_data (committed (snd (record_race example_race empty_conn))).
                  rd_discord_id row = 4] \<noteq> [3]"
  by code_simp

lemma upsert_user_name_racer_data:
  "upsert_user_name d nm (t\<lparr>racer_data := X\<rparr>) = (upsert_user_name d nm t)\<lparr>racer_data := X\<rparr>"
  by (simp add: upsert_user_name_def)

lemma upsert_racers_racer_data:
  "upsert_racers rs (t\<lparr>racer_data := X\<rparr>) = (upsert_racers rs t)\<lparr>racer_data := X\<rparr>"
  by (induction rs arbitrary: t) (simp_all add: upsert_user_name_racer_data)

lemma upsert_user_name_race_data:
  "upsert_user_name d nm (t\<lparr>race_data := X\<rparr>) = (upsert_user_name d nm t)\<lparr>race_data := X\<rparr>"
  by (simp add: upsert_user_name_def)

lemma upsert_racers_race_data:
  "upsert_racers rs (t\<lparr>race_data := X\<rparr>) = (upsert_racers rs t)\<lparr>race_data := X\<rparr>"
  by (induction rs arbitrary: t) (simp_all add: upsert_user_name_race_data)

lemma racer_data_upsert_user_name: "racer_data (upsert_user_name d nm t) = racer_data t"
  by (simp add: upsert_user_name_def)

lemma record_racers_result:
  "record_racers nid k ys t =
     (if recorded_before_clash (map (\<lambda>r. (rd_race_id r, rd_discord_id r)) (racer_data t)) nid ys
           < length ys
      then Inl IntegrityError else Inr (),
      (upsert_racers
         (take (recorded_before_clash
                  (map (\<lambda>r. (rd_race_id r, rd_discord_id r)) (racer_data t)) nid ys) ys) t)
        \<lparr>racer_data := racer_data t @
           racer_rows nid k
             (take (recorded_before_clash
                      (map (\<lambda>r. (rd_race_id r, rd_discord_id r)) (racer_data t)) nid ys) ys)\<rparr>)"
proof (induction ys arbitrary: k t)
  case Nil
  show ?case by simp
next
  case (Cons r rs)
  let ?keys = "map (\<lambda>r. (rd_race_id r, rd_discord_id r)) (racer_data t)"
  show ?case
  proof (cases "(nid, racer_id r) \<in> set ?keys")
    case True
    then have "insert_racer_data (racer_params nid k r) t = Inl IntegrityError"
      by (simp add: insert_racer_data_def racer_params_def)
    then show ?thesis using True by simp
  next
    case False
    define t1 where "t1 = t\<lparr>racer_data := racer_data t @ [racer_params nid k r]\<rparr>"
    define t2 where "t2 = upsert_user_name (racer_id r) (racer_name r) t1"
    define k' where "k' = (if is_finished r then k + 1 else k)"
    have ins: "insert_racer_data (racer_params nid k r) t = Inr t1"
      using False by (simp add: insert_racer_data_def racer_params_def t1_def)
    have rd2: "racer_data t2 = racer_data t @ [racer_params nid k r]"
      by (simp add: t2_def t1_def racer_data_upsert_user_name)
    have keys2: "map (\<lambda>r. (rd_race_id r, rd_discord_id r)) (racer_data t2) =
                 ?keys @ [(nid, racer_id r)]"
      by (simp add: rd2 racer_params_def)
    define n where "n = recorded_before_clash (?keys @ [(nid, racer_id r)]) nid rs"
    have n_all: "recorded_before_clash ?keys nid (r # rs) = Suc n"
      using False by (simp add: n_def)
    have t2_eq: "t2 = (upsert_user_name (racer_id r) (racer_name r) t)
                        \<lparr>racer_data := racer_data t @ [racer_params nid k r]\<rparr>"
      by (simp add: t2_def t1_def upsert_user_name_racer_data)
    have step: "record_racers nid k (r # rs) t = record_racers nid k' rs t2"
      using ins by (simp add: t2_def k'_def)
    have "record_racers nid k' rs t2 =
      (if n < length rs then Inl IntegrityError else Inr (),
       (upsert_racers (take n rs) t2)
         \<lparr>racer_data := racer_data t2 @ racer_rows nid k' (take n rs)\<rparr>)"
      using Cons.IH[of k' t2] by (simp only: keys2 n_def)
    also have "(upsert_racers (take n rs) t2)
         \<lparr>racer_data := racer_data t2 @ racer_rows nid k' (take n rs)\<rparr> =
       (upsert_racers (take (Suc n) (r # rs)) t)
         \<lparr>racer_data := racer_data t @ racer_rows nid k (take (Suc n) (r # rs))\<rparr>"
      by (simp add: rd2 t2_eq upsert_racers_racer_data k'_def)
    finally show ?thesis
      by (simp only: step n_all) simp
  qed
qed

text \<open>
  Claim C2, as the code has it. \<^verbatim>\<open>record_race\<close> is not atomic: \<^verbatim>\<open>__exit__\<close> commits
  also when a statement has raised. A call that fails has failed on the duplicate key of
  a result row, at the first racer of the sorted list whose key is already in
  \<^verbatim>\<open>racer_data\<close>. The committed store is then the store before the call with the row of
  the new race, the result rows of the racers before that one, and the identities of
  those racers upserted, and nothing else; it differs from the store before the call.
\<close>

theorem record_race_failure_commits:
  assumes "fst (record_race rc c) = Inl e" and "committed c = working c"
  shows "(let nid = new_raceid (committed c);
              ys = racer_list (racers rc);
              n = recorded_before_clash
                    (map (\<lambda>r. (rd_race_id r, rd_discord_id r)) (racer_data (committed c))) nid ys
          in e = IntegrityError \<and> n < length ys \<and>
             committed (snd (record_race rc c)) =
               (upsert_racers (take n ys) (committed c))
                 \<lparr>race_data := race_data (committed c) @ [race_params nid rc],
                  racer_data := racer_data (committed c) @ racer_rows nid 1 (take n ys)\<rparr> \<and>
             committed (snd (record_race rc c)) \<noteq> committed c)"
proof -
  define t where "t = working c"
  define nid where "nid = new_raceid t"
  define ys where "ys = racer_list (racers rc)"
  define t1 where "t1 = t\<lparr>race_data := race_data t @ [race_params nid rc]\<rparr>"
  define n where "n = recorded_before_clash
                    (map (\<lambda>r. (rd_race_id r, rd_discord_id r)) (racer_data t)) nid ys"
  have body: "record_race_body rc t = record_racers nid 1 ys t1"
    by (simp add: record_race_body_eq nid_def ys_def t1_def)
  have rd1: "racer_data t1 = racer_data t" by (simp add: t1_def)
  have res: "record_racers nid 1 ys t1 =
      (if n < length ys then Inl IntegrityError else Inr (),
       (upsert_racers (take n ys) t1)
         \<lparr>racer_data := racer_data t @ racer_rows nid 1 (take n ys)\<rparr>)"
    using record_racers_result[of nid 1 ys t1] by (simp only: rd1 n_def)
  have "fst (record_race rc c) = fst (record_racers nid 1 ys t1)"
    by (simp add: record_race_eq t_def[symmetric] body)
  then have fst_eq: "fst (record_race rc c) = (if n < length ys then Inl IntegrityError else Inr ())"
    by (simp only: res fst_conv)
  have n_lt: "n < length ys" and e: "e = IntegrityError"
    using assms(1) fst_eq by (auto split: if_splits)
  have "committed (snd (record_race rc c)) = snd (record_racers nid 1 ys t1)"
    by (simp add: record_race_eq t_def[symmetric] body)
  also have "\<dots> = (upsert_racers (take n ys) t1)
                      \<lparr>racer_data := racer_data t @ racer_rows nid 1 (take n ys)\<rparr>"
    by (simp only: res snd_conv)
  also have "\<dots> = (upsert_racers (take n ys) t)
        \<lparr>race_data := race_data t @ [race_params nid rc],
         racer_data := racer_data t @ racer_rows nid 1 (take n ys)\<rparr>"
    by (simp add: t1_def upsert_racers_race_data)
  finally have comm: "committed (snd (record_race rc c)) =
      (upsert_racers (take n ys) t)
        \<lparr>race_data := race_data t @ [race_params nid rc],
         racer_data := racer_data t @ racer_rows nid 1 (take n ys)\<rparr>" .
  have "race_data (committed (snd (record_race rc c))) \<noteq> race_data t"
    by (simp add: comm)
  then have ne: "committed (snd (record_race rc c)) \<noteq> t" by auto
  have tc: "t = committed c" using assms(2) by (simp add: t_def)
  show ?thesis
    using e n_lt comm ne
    unfolding Let_def tc[symmetric] nid_def[symmetric] ys_def[symmetric] n_def[symmetric]
    by (intro conjI)
qed

theorem record_race_failure_commits_witness:
  "fst (record_race clashing_race empty_conn) = Inl IntegrityError \<and>
   committed empty_conn = working empty_conn \<and>
   recorded_before_clash
     (map (\<lambda>r. (rd_race_id r, rd_discord_id r)) (racer_data (committed empty_conn)))
     (new_raceid (committed empty_conn)) (racer_list (racers clashing_race)) = 1 \<and>
   committed (snd (record_race clashing_race empty_conn)) =
     (upsert_racers (take 1 (racer_list (racers clashing_race))) (committed empty_conn))
       \<lparr>race_data := race_data (committed empty_conn) @
                       [race_params (new_raceid (committed empty_conn)) clashing_race],
        racer_data := racer_data (committed empty_conn) @
                        racer_rows (new_raceid (committed empty_conn)) 1
                          (take 1 (racer_list (racers clashing_race)))\<rparr> \<and>
   committed (snd (record_race clashing_race empty_conn)) \<noteq> committed empty_conn"
proof -
  have h1: "fst (record_race clashing_race empty_conn) = Inl IntegrityError" by code_simp
  have h2: "committed empty_conn = working empty_conn" by (simp add: empty_conn_def)
  have n: "recorded_before_clash
     (map (\<lambda>r. (rd_race_id r, rd_discord_id r)) (racer_data (committed empty_conn)))
     (new_raceid (committed empty_conn)) (racer_list (racers clashing_race)) = 1"
    by code_simp
  note t = record_race_failure_commits[OF h1 h2, unfolded Let_def n]
  from t have a: "committed (snd (record_race clashing_race empty_conn)) =
     (upsert_racers (take 1 (racer_list (racers clashing_race))) (committed empty_conn))
       \<lparr>race_data := race_data (committed empty_conn) @
                       [race_params (new_raceid (committed empty_conn)) clashing_race],
        racer_data := racer_data (committed empty_conn) @
                        racer_rows (new_raceid (committed empty_conn)) 1
                          (take 1 (racer_list (racers clashing_race)))\<rparr>"
    by blast
  from t have b: "committed (snd (record_race clashing_race empty_conn)) \<noteq> committed empty_conn"
    by blast
  show ?thesis using h1 h2 n a b by (intro conjI)
qed

text \<open>
  A failing call on the empty store: the second result row has the key of the first, the
  call raises, and the race row, the first result row and the first user row are
  committed.
\<close>

theorem record_race_atomic_counterexample:
  "fst (record_race clashing_race empty_conn) = Inl IntegrityError \<and>
   committed (snd (record_race clashing_race empty_conn)) \<noteq> committed empty_conn \<and>
   map race_id (race_data (committed (snd (record_race clashing_race empty_conn)))) = [0] \<and>
   map (\<lambda>row. (rd_race_id row, rd_discord_id row, rd_rank row))
     (racer_data (committed (snd (record_race clashing_race empty_conn)))) = [(0, 1, 1)] \<and>
   map discord_id (user_data (committed (snd (record_race clashing_race empty_conn)))) = [1]"
  by code_simp

lemma record_race_synced:
  "committed (snd (record_race rc c)) = working (snd (record_race rc c))"
  by (simp add: record_race_eq)

lemma record_races_synced:
  "committed c = working c \<Longrightarrow> committed (record_races rcs c) = working (record_races rcs c)"
  by (induction rcs arbitrary: c) (simp_all add: record_race_synced)

lemma next_race_id_eq: "next_race_id t = new_raceid t"
  by (simp add: next_race_id_def new_raceid_eq)

lemma length_assigned_race_ids: "length (assigned_race_ids rcs c) = length rcs"
  by (induction rcs arbitrary: c) simp_all

lemma record_races_race_data:
  "race_data (working (record_races rcs c)) =
     race_data (working c) @
     map (\<lambda>(i, rc). race_params i rc) (zip (assigned_race_ids rcs c) rcs)"
proof (induction rcs arbitrary: c)
  case Nil
  show ?case by simp
next
  case (Cons rc rcs)
  show ?case
    by (simp add: Cons.IH record_race_race_data)
qed

lemma assigned_race_ids_nth:
  "k < length rcs \<Longrightarrow>
   assigned_race_ids rcs c ! k = new_raceid (working (record_races (take k rcs) c))"
proof (induction rcs arbitrary: c k)
  case Nil
  then show ?case by simp
next
  case (Cons rc rcs)
  show ?case
  proof (cases k)
    case 0
    then show ?thesis by simp
  next
    case (Suc j)
    then have "j < length rcs" using Cons.prems by simp
    then show ?thesis using Cons.IH[of j "snd (record_race rc c)"] Suc by simp
  qed
qed

lemma record_races_take_synced:
  "committed c = working c \<Longrightarrow>
   committed (record_races (take k rcs) c) = working (record_races (take k rcs) c)"
  by (rule record_races_synced)

text \<open>
  Claim C3. From a connection with nothing pending, a sequence of \<^verbatim>\<open>record_race\<close> calls
  leaves in the committed \<^verbatim>\<open>race_data\<close> the rows it held and, after them, one row for
  each call (also for a call that raised), numbered by that call. The number of a call is
  the next race number of the store as the calls before it committed it: 0 on an empty
  table, the greatest stored \<^verbatim>\<open>race_id\<close> plus one otherwise. The numbers are strictly
  increasing, and each is greater than every \<^verbatim>\<open>race_id\<close> stored before the sequence.
\<close>

theorem race_ids_increasing:
  assumes "committed c = working c"
  shows "race_data (committed (record_races rcs c)) =
           race_data (committed c) @
           map (\<lambda>(i, rc). race_params i rc) (zip (assigned_race_ids rcs c) rcs) \<and>
         length (assigned_race_ids rcs c) = length rcs \<and>
         (\<forall>k<length rcs.
            assigned_race_ids rcs c ! k = next_race_id (committed (record_races (take k rcs) c))) \<and>
         sorted_wrt (<) (assigned_race_ids rcs c) \<and>
         (\<forall>i\<in>set (assigned_race_ids rcs c). \<forall>r\<in>set (race_data (committed c)). race_id r < i)"
proof (intro conjI allI impI ballI)
  show "race_data (committed (record_races rcs c)) =
           race_data (committed c) @
           map (\<lambda>(i, rc). race_params i rc) (zip (assigned_race_ids rcs c) rcs)"
    using record_races_race_data[of rcs c] record_races_synced[OF assms, of rcs] assms by simp
  show "length (assigned_race_ids rcs c) = length rcs" by (rule length_assigned_race_ids)
  show "sorted_wrt (<) (assigned_race_ids rcs c)" by (rule assigned_race_ids_increasing)
next
  fix k assume "k < length rcs"
  then have "assigned_race_ids rcs c ! k = new_raceid (working (record_races (take k rcs) c))"
    by (rule assigned_race_ids_nth)
  also have "\<dots> = new_raceid (committed (record_races (take k rcs) c))"
    using record_races_synced[OF assms, of "take k rcs"] by simp
  finally show "assigned_race_ids rcs c ! k =
      next_race_id (committed (record_races (take k rcs) c))"
    by (simp add: next_race_id_eq)
next
  fix i r assume i: "i \<in> set (assigned_race_ids rcs c)" and r: "r \<in> set (race_data (committed c))"
  have "new_raceid (working c) \<le> i" using i by (rule assigned_race_ids_lower)
  moreover have "race_id r < new_raceid (working c)"
    using r assms new_raceid_fresh[of r "working c"] by simp
  ultimately show "race_id r < i" by simp
qed

theorem race_ids_increasing_witness:
  "committed empty_conn = working empty_conn \<and>
   map race_id (race_data (committed
      (record_races [example_race, clashing_race, example_race] empty_conn))) = [0, 1, 2] \<and>
   assigned_race_ids [example_race, clashing_race, example_race] empty_conn = [0, 1, 2] \<and>
   sorted_wrt (<) (assigned_race_ids [example_race, clashing_race, example_race] empty_conn) \<and>
   next_race_id (committed (record_races [example_race, clashing_race] empty_conn)) = 2"
proof -
  have h: "committed empty_conn = working empty_conn" by (simp add: empty_conn_def)
  note t = race_ids_increasing[OF h, of "[example_race, clashing_race, example_race]"]
  have ids: "assigned_race_ids [example_race, clashing_race, example_race] empty_conn = [0, 1, 2]"
    by code_simp
  have old: "race_data (committed empty_conn) = []"
    by (simp add: empty_conn_def empty_tables_def)
  from t have "race_data (committed
      (record_races [example_race, clashing_race, example_race] empty_conn)) =
      race_data (committed empty_conn) @
      map (\<lambda>(i, rc). race_params i rc)
        (zip (assigned_race_ids [example_race, clashing_race, example_race] empty_conn)
           [example_race, clashing_race, example_race])"
    by (rule conjunct1)
  then have "race_data (committed
      (record_races [example_race, clashing_race, example_race] empty_conn)) =
      map (\<lambda>(i, rc). race_params i rc)
        (zip [0, 1, 2] [example_race, clashing_race, example_race])"
    by (simp only: ids old append_Nil)
  then have stored: "map race_id (race_data (committed
      (record_races [example_race, clashing_race, example_race] empty_conn))) = [0, 1, 2]"
    by (simp add: race_params_def del: record_races.simps)
  from t have sorted: "sorted_wrt (<)
      (assigned_race_ids [example_race, clashing_race, example_race] empty_conn)"
    by blast
  have two: "(2::nat) < length [example_race, clashing_race, example_race]" by simp
  from t have "\<forall>k<length [example_race, clashing_race, example_race].
      assigned_race_ids [example_race, clashing_race, example_race] empty_conn ! k =
      next_race_id (committed (record_races (take k [example_race, clashing_race, example_race])
        empty_conn))"
    by blast
  with two have "assigned_race_ids [example_race, clashing_race, example_race] empty_conn ! 2 =
      next_race_id (committed (record_races (take 2 [example_race, clashing_race, example_race])
        empty_conn))"
    by blast
  then have "[0, 1, 2 :: int] ! 2 =
      next_race_id (committed (record_races (take 2 [example_race, clashing_race, example_race])
        empty_conn))"
    by (simp only: ids)
  moreover have "take 2 [example_race, clashing_race, example_race] = [example_race, clashing_race]"
    by simp
  ultimately have nxt:
    "next_race_id (committed (record_races [example_race, clashing_race] empty_conn)) = 2"
    by (simp del: record_races.simps)
  show ?thesis using h stored ids sorted nxt by (intro conjI)
qed

section \<open>Properties of the user registry\<close>













section \<open>Properties of the daily challenge tracker\<close>

lemma upsert_daily_races_registered:
  "\<exists>r\<in>set (daily_races (upsert_daily_races did i ty lv tm t)). daily_key did i ty r"
proof (cases "\<exists>r\<in>set (daily_races t). daily_key did i ty r")
  case True
  define f where "f = (\<lambda>r. if daily_key did i ty r
                  then r\<lparr>dr_discord_id := did, dr_daily_id := i, dr_type := ty,
                         dr_level := lv, dr_time := tm\<rparr>
                  else r)"
  from True obtain r where r: "r \<in> set (daily_races t)" "daily_key did i ty r" by blast
  have "upsert_daily_races did i ty lv tm t = t\<lparr>daily_races := map f (daily_races t)\<rparr>"
    by (simp only: upsert_daily_races_def True if_True f_def)
  then have eq: "daily_races (upsert_daily_races did i ty lv tm t) = map f (daily_races t)"
    by simp
  have "f r \<in> f ` set (daily_races t)" using r(1) by (rule imageI)
  then have "f r \<in> set (map f (daily_races t))" by (simp only: set_map)
  moreover have "daily_key did i ty (f r)" using r(2) by (simp add: f_def daily_key_def)
  ultimately show ?thesis unfolding eq by (rule bexI[rotated])
next
  case False
  have "upsert_daily_races did i ty lv tm t =
      t\<lparr>daily_races := daily_races t @ [\<lparr>dr_discord_id = did, dr_daily_id = i, dr_type = ty,
                        dr_level = lv, dr_time = tm\<rparr>]\<rparr>"
    by (simp only: upsert_daily_races_def False if_False)
  then have eq: "daily_races (upsert_daily_races did i ty lv tm t) =
      daily_races t @ [\<lparr>dr_discord_id = did, dr_daily_id = i, dr_type = ty,
                        dr_level = lv, dr_time = tm\<rparr>]"
    by simp
  show ?thesis unfolding eq by (simp add: daily_key_def)
qed

lemma register_daily_eq:
  "register_daily did i ty lv tm c =
     (Inr (), \<lparr>committed = upsert_daily_races did i ty lv tm (working c),
               working = upsert_daily_races did i ty lv tm (working c)\<rparr>)"
  by (simp add: register_daily_def with_DBConnect_def DBConnect_exit_def)

lemma delete_from_daily_eq:
  "delete_from_daily did i ty c =
     (Inr (),
      \<lparr>committed = (working c)\<lparr>daily_races :=
          map (\<lambda>r. if daily_key did i ty r then r\<lparr>dr_level := - 1\<rparr> else r) (daily_races (working c))\<rparr>,
       working = (working c)\<lparr>daily_races :=
          map (\<lambda>r. if daily_key did i ty r then r\<lparr>dr_level := - 1\<rparr> else r) (daily_races (working c))\<rparr>\<rparr>)"
  by (simp add: delete_from_daily_def with_DBConnect_def DBConnect_exit_def)

lemma no_submission_after_delete:
  "[r \<leftarrow> map (\<lambda>r. if daily_key did i ty r then r\<lparr>dr_level := - 1\<rparr> else r) xs.
      daily_key did i ty r \<and> dr_level r \<noteq> - 1] = []"
  by (induction xs) (auto simp: daily_key_def)

lemma registration_kept_by_delete:
  "[r \<leftarrow> map (\<lambda>r. if daily_key did i ty r then r\<lparr>dr_level := - 1\<rparr> else r) xs. daily_key did i ty r] =
     map (\<lambda>r. r\<lparr>dr_level := - 1\<rparr>) [r \<leftarrow> xs. daily_key did i ty r]"
  by (induction xs) (auto simp: daily_key_def)

lemma delete_absent:
  "\<forall>r\<in>set xs. \<not> daily_key did i ty r \<Longrightarrow>
   map (\<lambda>r. if daily_key did i ty r then r\<lparr>dr_level := - 1\<rparr> else r) xs = xs"
  by (induction xs) auto

text \<open>
  A body that leaves nothing unread is closed without an exception: the two scopes agree.
\<close>

lemma with_DBConnect_cursor_read:
  "\<not> unread_result cur \<Longrightarrow>
   with_DBConnect_cursor commit (\<lambda>t. (r t, f t, cur)) c = with_DBConnect commit (\<lambda>t. (r t, f t)) c"
  by (simp add: with_DBConnect_cursor_def with_DBConnect_def cursor_close_def)

text \<open>
  What \<^verbatim>\<open>register_daily\<close> and \<^verbatim>\<open>delete_from_daily\<close> do to the table: after both, the
  key has a row and no row of the key has a level other than -1; and
  \<^verbatim>\<open>delete_from_daily\<close> for a key that has no row raises nothing and leaves the tables as
  they were.
\<close>

lemma register_delete_daily_rows:
  "(let c2 = snd (delete_from_daily did i ty (snd (register_daily did i ty lv tm c)))
    in fst (register_daily did i ty lv tm c) = Inr () \<and>
       fst (delete_from_daily did i ty (snd (register_daily did i ty lv tm c))) = Inr () \<and>
       [r \<leftarrow> daily_races (committed c2). daily_key did i ty r] \<noteq> [] \<and>
       [r \<leftarrow> daily_races (committed c2). daily_key did i ty r \<and> dr_level r \<noteq> - 1] = []) \<and>
   ((\<forall>r\<in>set (daily_races (working c)). \<not> daily_key did i ty r) \<longrightarrow>
      fst (delete_from_daily did i ty c) = Inr () \<and>
      working (snd (delete_from_daily did i ty c)) = working c \<and>
      committed (snd (delete_from_daily did i ty c)) = working c)"
proof (intro conjI impI)
  define c1 where "c1 = snd (register_daily did i ty lv tm c)"
  define c2 where "c2 = snd (delete_from_daily did i ty c1)"
  let ?g = "\<lambda>r. if daily_key did i ty r then r\<lparr>dr_level := - 1\<rparr> else r"
  have w1: "working c1 = upsert_daily_races did i ty lv tm (working c)"
    by (simp add: c1_def register_daily_eq)
  have rows2: "daily_races (committed c2) = map ?g (daily_races (working c1))"
    by (simp add: c2_def delete_from_daily_eq)
  have "\<exists>r\<in>set (daily_races (working c1)). daily_key did i ty r"
    unfolding w1 by (rule upsert_daily_races_registered)
  then have "[r \<leftarrow> daily_races (working c1). daily_key did i ty r] \<noteq> []"
    by (simp only: filter_empty_conv) blast
  then have reg: "[r \<leftarrow> daily_races (committed c2). daily_key did i ty r] \<noteq> []"
    by (simp only: rows2 registration_kept_by_delete) simp
  have sub: "[r \<leftarrow> daily_races (committed c2). daily_key did i ty r \<and> dr_level r \<noteq> - 1] = []"
    by (simp only: rows2 no_submission_after_delete)
  have "fst (register_daily did i ty lv tm c) = Inr () \<and>
       fst (delete_from_daily did i ty c1) = Inr () \<and>
       [r \<leftarrow> daily_races (committed c2). daily_key did i ty r] \<noteq> [] \<and>
       [r \<leftarrow> daily_races (committed c2). daily_key did i ty r \<and> dr_level r \<noteq> - 1] = []"
    using reg sub by (simp add: register_daily_eq delete_from_daily_eq)
  then show "let c2 = snd (delete_from_daily did i ty (snd (register_daily did i ty lv tm c)))
    in fst (register_daily did i ty lv tm c) = Inr () \<and>
       fst (delete_from_daily did i ty (snd (register_daily did i ty lv tm c))) = Inr () \<and>
       [r \<leftarrow> daily_races (committed c2). daily_key did i ty r] \<noteq> [] \<and>
       [r \<leftarrow> daily_races (committed c2). daily_key did i ty r \<and> dr_level r \<noteq> - 1] = []"
    unfolding Let_def c1_def c2_def .
next
  assume a: "\<forall>r\<in>set (daily_races (working c)). \<not> daily_key did i ty r"
  show "fst (delete_from_daily did i ty c) = Inr ()" by (simp add: delete_from_daily_eq)
  show "working (snd (delete_from_daily did i ty c)) = working c"
    by (simp add: delete_from_daily_eq delete_absent[OF a])
  show "committed (snd (delete_from_daily did i ty c)) = working c"
    by (simp add: delete_from_daily_eq delete_absent[OF a])
qed

section \<open>Properties of the profile setters\<close>

lemma update_user_rows_frame:
  assumes id: "\<And>r. discord_id (upd r) = discord_id r"
    and er: "\<And>r. erase (upd r) = erase r"
  shows "changes_only erase did t
           (t\<lparr>user_data := map (\<lambda>r. if discord_id r = did then upd r else r) (user_data t)\<rparr>)"
proof -
  let ?f = "\<lambda>r. if discord_id r = did then upd r else r"
  have ids: "map discord_id (map ?f xs) = map discord_id xs" for xs
    by (induction xs) (simp_all add: id)
  have erased: "map erase (map ?f xs) = map erase xs" for xs
    by (induction xs) (simp_all add: er)
  have others: "[r \<leftarrow> map ?f xs. discord_id r \<noteq> did] = [r \<leftarrow> xs. discord_id r \<noteq> did]" for xs
    by (induction xs) (simp_all add: id)
  have absent: "did \<notin> discord_id ` set xs \<Longrightarrow> map ?f xs = xs" for xs
    by (induction xs) simp_all
  show ?thesis
    unfolding changes_only_def using absent[of "user_data t"]
    by (simp add: ids erased others id er)
qed

lemma set_timezone_eq:
  "set_timezone did v c =
     (Inr (),
      \<lparr>committed = (working c)\<lparr>user_data :=
          map (\<lambda>r. if discord_id r = did then r\<lparr>timezone := Some v\<rparr> else r) (user_data (working c))\<rparr>,
       working = (working c)\<lparr>user_data :=
          map (\<lambda>r. if discord_id r = did then r\<lparr>timezone := Some v\<rparr> else r) (user_data (working c))\<rparr>\<rparr>)"
  by (simp add: set_timezone_def with_DBConnect_def DBConnect_exit_def)

lemma set_rtmp_eq:
  "set_rtmp did v c =
     (Inr (),
      \<lparr>committed = (working c)\<lparr>user_data :=
          map (\<lambda>r. if discord_id r = did then r\<lparr>rtmp_name := Some v\<rparr> else r) (user_data (working c))\<rparr>,
       working = (working c)\<lparr>user_data :=
          map (\<lambda>r. if discord_id r = did then r\<lparr>rtmp_name := Some v\<rparr> else r) (user_data (working c))\<rparr>\<rparr>)"
  by (simp add: set_rtmp_def with_DBConnect_def DBConnect_exit_def)

lemma set_twitch_eq:
  "set_twitch did v c =
     (Inr (),
      \<lparr>committed = (working c)\<lparr>user_data :=
          map (\<lambda>r. if discord_id r = did then r\<lparr>twitch_name := Some v\<rparr> else r) (user_data (working c))\<rparr>,
       working = (working c)\<lparr>user_data :=
          map (\<lambda>r. if discord_id r = did then r\<lparr>twitch_name := Some v\<rparr> else r) (user_data (working c))\<rparr>\<rparr>)"
  by (simp add: set_twitch_def with_DBConnect_def DBConnect_exit_def)

lemma set_user_info_eq:
  "set_user_info did v c =
     (Inr (),
      \<lparr>committed = (working c)\<lparr>user_data :=
          map (\<lambda>r. if discord_id r = did then r\<lparr>user_info := Some v\<rparr> else r) (user_data (working c))\<rparr>,
       working = (working c)\<lparr>user_data :=
          map (\<lambda>r. if discord_id r = did then r\<lparr>user_info := Some v\<rparr> else r) (user_data (working c))\<rparr>\<rparr>)"
  by (simp add: set_user_info_def with_DBConnect_def DBConnect_exit_def)

lemma updated_rows_value:
  assumes "\<And>r. discord_id (upd r) = discord_id r" and "\<And>r. col (upd r) = v"
  shows "\<forall>r\<in>set (map (\<lambda>r. if discord_id r = did then upd r else r) xs).
           discord_id r = did \<longrightarrow> col r = v"
  by (induction xs) (simp_all add: assms)

text \<open>
  Claim C10. Each of \<^verbatim>\<open>set_timezone\<close>, \<^verbatim>\<open>set_rtmp\<close>, \<^verbatim>\<open>set_twitch\<close> and
  \<^verbatim>\<open>set_user_info\<close> succeeds, creates no row, leaves the tables untouched when the user
  has no row, and otherwise changes nothing but its own column in the rows of that user,
  where it stores the value.
\<close>

theorem profile_setters_frame:
  "fst (set_timezone did v c) = Inr () \<and>
   committed (snd (set_timezone did v c)) = working (snd (set_timezone did v c)) \<and>
   changes_only (\<lambda>r. r\<lparr>timezone := None\<rparr>) did (working c) (committed (snd (set_timezone did v c))) \<and>
   (\<forall>r\<in>set (user_data (committed (snd (set_timezone did v c)))).
      discord_id r = did \<longrightarrow> timezone r = Some v) \<and>
   fst (set_rtmp did v c) = Inr () \<and>
   committed (snd (set_rtmp did v c)) = working (snd (set_rtmp did v c)) \<and>
   changes_only (\<lambda>r. r\<lparr>rtmp_name := None\<rparr>) did (working c) (committed (snd (set_rtmp did v c))) \<and>
   (\<forall>r\<in>set (user_data (committed (snd (set_rtmp did v c)))).
      discord_id r = did \<longrightarrow> rtmp_name r = Some v) \<and>
   fst (set_twitch did v c) = Inr () \<and>
   committed (snd (set_twitch did v c)) = working (snd (set_twitch did v c)) \<and>
   changes_only (\<lambda>r. r\<lparr>twitch_name := None\<rparr>) did (working c) (committed (snd (set_twitch did v c))) \<and>
   (\<forall>r\<in>set (user_data (committed (snd (set_twitch did v c)))).
      discord_id r = did \<longrightarrow> twitch_name r = Some v) \<and>
   fst (set_user_info did v c) = Inr () \<and>
   committed (snd (set_user_info did v c)) = working (snd (set_user_info did v c)) \<and>
   changes_only (\<lambda>r. r\<lparr>user_info := None\<rparr>) did (working c) (committed (snd (set_user_info did v c))) \<and>
   (\<forall>r\<in>set (user_data (committed (snd (set_user_info did v c)))).
      discord_id r = did \<longrightarrow> user_info r = Some v)"
proof -
  have tz: "changes_only (\<lambda>r. r\<lparr>timezone := None\<rparr>) did (working c)
              (committed (snd (set_timezone did v c)))"
    unfolding set_timezone_eq snd_conv conn.simps
    by (rule update_user_rows_frame) simp_all
  have tzvu: "user_data (committed (snd (set_timezone did v c))) =
      map (\<lambda>r. if discord_id r = did then r\<lparr>timezone := Some v\<rparr> else r) (user_data (working c))"
    by (simp add: set_timezone_eq)
  have tzv: "\<forall>r\<in>set (user_data (committed (snd (set_timezone did v c)))).
      discord_id r = did \<longrightarrow> timezone r = Some v"
    unfolding tzvu by (rule updated_rows_value) simp_all
  have rt: "changes_only (\<lambda>r. r\<lparr>rtmp_name := None\<rparr>) did (working c)
              (committed (snd (set_rtmp did v c)))"
    unfolding set_rtmp_eq snd_conv conn.simps
    by (rule update_user_rows_frame) simp_all
  have rtvu: "user_data (committed (snd (set_rtmp did v c))) =
      map (\<lambda>r. if discord_id r = did then r\<lparr>rtmp_name := Some v\<rparr> else r) (user_data (working c))"
    by (simp add: set_rtmp_eq)
  have rtv: "\<forall>r\<in>set (user_data (committed (snd (set_rtmp did v c)))).
      discord_id r = did \<longrightarrow> rtmp_name r = Some v"
    unfolding rtvu by (rule updated_rows_value) simp_all
  have tw: "changes_only (\<lambda>r. r\<lparr>twitch_name := None\<rparr>) did (working c)
              (committed (snd (set_twitch did v c)))"
    unfolding set_twitch_eq snd_conv conn.simps
    by (rule update_user_rows_frame) simp_all
  have twvu: "user_data (committed (snd (set_twitch did v c))) =
      map (\<lambda>r. if discord_id r = did then r\<lparr>twitch_name := Some v\<rparr> else r) (user_data (working c))"
    by (simp add: set_twitch_eq)
  have twv: "\<forall>r\<in>set (user_data (committed (snd (set_twitch did v c)))).
      discord_id r = did \<longrightarrow> twitch_name r = Some v"
    unfolding twvu by (rule updated_rows_value) simp_all
  have ui: "changes_only (\<lambda>r. r\<lparr>user_info := None\<rparr>) did (working c)
              (committed (snd (set_user_info did v c)))"
    unfolding set_user_info_eq snd_conv conn.simps
    by (rule update_user_rows_frame) simp_all
  have uivu: "user_data (committed (snd (set_user_info did v c))) =
      map (\<lambda>r. if discord_id r = did then r\<lparr>user_info := Some v\<rparr> else r) (user_data (working c))"
    by (simp add: set_user_info_eq)
  have uiv: "\<forall>r\<in>set (user_data (committed (snd (set_user_info did v c)))).
      discord_id r = did \<longrightarrow> user_info r = Some v"
    unfolding uivu by (rule updated_rows_value) simp_all
  have ok: "fst (set_timezone did v c) = Inr ()" "fst (set_rtmp did v c) = Inr ()"
    "fst (set_twitch did v c) = Inr ()" "fst (set_user_info did v c) = Inr ()"
    "committed (snd (set_timezone did v c)) = working (snd (set_timezone did v c))"
    "committed (snd (set_rtmp did v c)) = working (snd (set_rtmp did v c))"
    "committed (snd (set_twitch did v c)) = working (snd (set_twitch did v c))"
    "committed (snd (set_user_info did v c)) = working (snd (set_user_info did v c))"
    by (simp_all add: set_timezone_eq set_rtmp_eq set_twitch_eq set_user_info_eq)
  show ?thesis by (intro conjI; fact)
qed

theorem profile_setters_frame_witness:
  "fst (set_timezone 2 ''CET'' prefs_conn) = Inr () \<and>
   map timezone (user_data (committed (snd (set_timezone 2 ''CET'' prefs_conn)))) =
     [Some ''UTC'', Some ''CET''] \<and>
   committed (snd (set_timezone 7 ''CET'' prefs_conn)) = working prefs_conn \<and>
   committed (snd (set_rtmp 7 ''CET'' prefs_conn)) = working prefs_conn \<and>
   committed (snd (set_twitch 7 ''CET'' prefs_conn)) = working prefs_conn \<and>
   committed (snd (set_user_info 7 ''CET'' prefs_conn)) = working prefs_conn"
proof -
  have absent: "(7 \<in> discord_id ` set (user_data (working prefs_conn))) = False"
    by (simp add: prefs_conn_def prefs_tables_def)
  note f = profile_setters_frame[of 7 "''CET''" prefs_conn, unfolded changes_only_def absent if_False]
  have tz: "map timezone (user_data (committed (snd (set_timezone 2 ''CET'' prefs_conn)))) =
     [Some ''UTC'', Some ''CET'']"
    by code_simp
  have ok: "fst (set_timezone 2 ''CET'' prefs_conn) = Inr ()"
    using profile_setters_frame[of 2 "''CET''" prefs_conn] by (rule conjunct1)
  from f have
    "committed (snd (set_timezone 7 ''CET'' prefs_conn)) = working prefs_conn"
    "committed (snd (set_rtmp 7 ''CET'' prefs_conn)) = working prefs_conn"
    "committed (snd (set_twitch 7 ''CET'' prefs_conn)) = working prefs_conn"
    "committed (snd (set_user_info 7 ''CET'' prefs_conn)) = working prefs_conn"
    by blast+
  then show ?thesis using tz ok by blast
qed

section \<open>Where the code departs from its specification\<close>

text \<open>
  What does hold of \<^verbatim>\<open>get_fastest_times_leaderboard\<close>: it returns at most \<^verbatim>\<open>limit\<close>
  rows, in ascending order of time, and leaves the connection as it was.
\<close>

lemma leaderboard_limit_sorted:
  "fst (get_fastest_times_leaderboard cn amp limit c) = Inr rows \<Longrightarrow>
   length rows \<le> limit \<and> sorted (map (\<lambda>row. fst (snd row)) rows) \<and>
   snd (get_fastest_times_leaderboard cn amp limit c) = c"
  by (auto simp: get_fastest_times_leaderboard_def with_DBConnect_def DBConnect_exit_def
      take_map[symmetric] sorted_wrt_take simp del: take_map)

text \<open>
  Claim C4, at a store the code reaches. A racer finishes a public, seeded race and a
  private, unseeded race in the same time. \<^verbatim>\<open>get_fastest_times_leaderboard\<close> lists the
  racer twice, the second time with the seed and the date of the private race.
\<close>

theorem leaderboard_lists_private_race:
  "fst (get_fastest_times_leaderboard ''Cadence'' False 10 leaderboard_conn) =
     Inr [(Some ''ay'', 100, 7, ''2016-11-04 20:00:00''),
          (Some ''ay'', 100, 8, ''2016-11-05 20:00:00'')] \<and>
   map (\<lambda>r. (race_id r, seed r, seeded r, private_col r)) (race_data (working leaderboard_conn)) =
     [(0, 7, True, False), (1, 8, False, True)]"
  by code_simp

text \<open>
  Claim C8. \<^verbatim>\<open>has_submitted_daily\<close> and \<^verbatim>\<open>has_registered_daily\<close> read \<^verbatim>\<open>rowcount\<close>
  before any row is fetched and leave the result unread: whatever the table holds, the
  scope raises \<^verbatim>\<open>InternalError\<close> when it closes the cursor, and no value is returned.
  After \<^verbatim>\<open>register_daily\<close> and \<^verbatim>\<open>delete_from_daily\<close> for the user 1 the row is stored
  with the level -1, and both predicates raise.
\<close>

theorem daily_predicates_raise:
  "has_submitted_daily did i ty c = (Inl InternalError, c) \<and>
   has_registered_daily did i ty c = (Inl InternalError, c) \<and>
   daily_races (committed (snd (delete_from_daily 1 3 0
      (snd (register_daily 1 3 0 5 100 empty_conn))))) =
     [\<lparr>dr_discord_id = 1, dr_daily_id = 3, dr_type = 0, dr_level = - 1, dr_time = 100\<rparr>] \<and>
   fst (has_submitted_daily 1 3 0 (snd (delete_from_daily 1 3 0
      (snd (register_daily 1 3 0 5 100 empty_conn))))) = Inl InternalError \<and>
   fst (has_registered_daily 1 3 0 (snd (delete_from_daily 1 3 0
      (snd (register_daily 1 3 0 5 100 empty_conn))))) = Inl InternalError"
proof -
  have s: "has_submitted_daily did i ty c = (Inl InternalError, c)" for did i ty c
    by (simp add: has_submitted_daily_def with_DBConnect_cursor_def cursor_close_def
        execute_select_def DBConnect_exit_def Let_def)
  have r: "has_registered_daily did i ty c = (Inl InternalError, c)" for did i ty c
    by (simp add: has_registered_daily_def with_DBConnect_cursor_def cursor_close_def
        execute_select_def DBConnect_exit_def Let_def)
  have d: "daily_races (committed (snd (delete_from_daily 1 3 0
      (snd (register_daily 1 3 0 5 100 empty_conn))))) =
     [\<lparr>dr_discord_id = 1, dr_daily_id = 3, dr_type = 0, dr_level = - 1, dr_time = 100\<rparr>]"
    by code_simp
  show ?thesis using d by (simp add: s r)
qed

text \<open>
  Claim C5. The statement of \<^verbatim>\<open>submitted_daily\<close> holds the word \<^verbatim>\<open>1ORDER\<close> and no
  \<^verbatim>\<open>ORDER\<close>; every call raises \<^verbatim>\<open>ProgrammingError\<close>, whatever the table holds, and
  leaves the connection as it was. \<^verbatim>\<open>registered_daily\<close>, whose literal ends in a space,
  returns the greatest \<^verbatim>\<open>daily_id\<close> of the user.
\<close>

theorem submitted_daily_raises:
  "sql_words [] submitted_daily_sql =
     [''SELECT'', ''daily_id'', ''FROM'', ''daily_races'', ''WHERE'', ''discord_id'', ''s'',
      ''AND'', ''type'', ''s'', ''AND'', ''level'', ''1ORDER'', ''BY'', ''daily_id'', ''DESC'',
      ''LIMIT'', ''1''] \<and>
   submitted_daily did ty c = (Inl ProgrammingError, c) \<and>
   registered_daily 1 0 daily_conn = (Inr 3, daily_conn)"
proof -
  have w: "sql_words [] submitted_daily_sql =
     [''SELECT'', ''daily_id'', ''FROM'', ''daily_races'', ''WHERE'', ''discord_id'', ''s'',
      ''AND'', ''type'', ''s'', ''AND'', ''level'', ''1ORDER'', ''BY'', ''daily_id'', ''DESC'',
      ''LIMIT'', ''1'']"
    by code_simp
  have p: "mysql_parses submitted_daily_sql = False" by code_simp
  have s: "submitted_daily did ty c = (Inl ProgrammingError, c)"
    by (simp add: submitted_daily_def with_DBConnect_cursor_def cursor_close_def
        DBConnect_exit_def p)
  have r: "registered_daily 1 0 daily_conn = (Inr 3, daily_conn)" by code_simp
  show ?thesis using w s r by (intro conjI)
qed

text \<open>
  For a user with no row, \<^verbatim>\<open>registered_daily\<close> subscripts the \<^verbatim>\<open>None\<close> of
  \<^verbatim>\<open>fetchone\<close>.
\<close>

lemma registered_daily_no_row: "registered_daily 2 0 daily_conn = (Inl TypeError, daily_conn)"
  by code_simp

text \<open>
  Claim C6. \<^verbatim>\<open>set_rating\<close> for the user 1 with the rating (25.7, 8.3) on an empty
  store, followed by \<^verbatim>\<open>get_rating\<close> for the user 1, returns \<^verbatim>\<open>None\<close>, whether the
  columns keep, truncate or round the numbers: the row is stored under the key made of
  \<^verbatim>\<open>mu\<close>, with \<^verbatim>\<open>sigma\<close> in the column of \<^verbatim>\<open>mu\<close> and the user's id in the column of
  \<^verbatim>\<open>sigma\<close>.
\<close>

theorem set_rating_stores_under_mu:
  "fst (get_rating 1 (snd (set_rating (\<lambda>x. x) 1 example_rating empty_conn))) = Inr None \<and>
   fst (get_rating 1 (snd (set_rating truncated 1 example_rating empty_conn))) = Inr None \<and>
   fst (get_rating 1 (snd (set_rating rounded 1 example_rating empty_conn))) = Inr None \<and>
   ladder_data (committed (snd (set_rating truncated 1 example_rating empty_conn))) =
     [\<lparr>ld_discord_id = 25, trueskill_mu = 8, trueskill_sigma = 1\<rparr>] \<and>
   fst (get_rating 25 (snd (set_rating truncated 1 example_rating empty_conn))) =
     Inr (Some \<lparr>mu = 8, sigma = 1\<rparr>)"
  by code_simp

end
